theory Spec2Isabelle
  imports Main
begin

section \<open>Collection rename (src/mongo/db/catalog/rename_collection.cpp)\<close>

text \<open>
  A shallow embedding of the rename subsystem. The operation context, the catalog, the
  lock state and the observer are threaded explicitly: the answers of the collaborators
  that the rename code only reads are the fields of \<open>env\<close>, everything the code can
  change is a field of \<open>world\<close>. Calls that matter to an outside observer (locks,
  observer callbacks, drops, cursor operations) are appended to \<open>trace\<close>.
\<close>

subsection \<open>Namespaces, identifiers, statuses\<close>

datatype nss = NamespaceString (nss_db: string) (nss_coll: string)

type_synonym uuid = nat
type_synonym optime = "nat option"
type_synonym bsonobj = string
type_synonym rid = nat

text \<open>
  The predicates of NamespaceString are declared in mongo/db/namespace_string.h, outside
  src/. Modelled from the spec: a namespace is a pair (database, collection); the views
  catalog is the collection \<open>system.views\<close>, drop-pending collections carry the prefix
  \<open>system.drop.\<close>, the oplog lives in \<open>local\<close> under the prefix \<open>oplog.\<close>.
\<close>

definition isSystemDotViews :: "nss \<Rightarrow> bool" where
  "isSystemDotViews n = (nss_coll n = ''system.views'')"

definition isDropPendingNamespace :: "nss \<Rightarrow> bool" where
  "isDropPendingNamespace n = (take 12 (nss_coll n) = ''system.drop.'')"

definition isOplog :: "nss \<Rightarrow> bool" where
  "isOplog n = (nss_db n = ''local'' \<and> take 6 (nss_coll n) = ''oplog.'')"

text \<open>NamespaceString(StringData ns): the database is what precedes the first dot.\<close>

definition parseNamespaceString :: "string \<Rightarrow> nss" where
  "parseNamespaceString s =
     NamespaceString (takeWhile (\<lambda>c. c \<noteq> CHR ''.'') s)
                     (drop 1 (dropWhile (\<lambda>c. c \<noteq> CHR ''.'') s))"

datatype ErrorCodes =
    NotMaster
  | IllegalOperation
  | NamespaceNotFound
  | NamespaceExists
  | CommandNotSupportedOnView
  | BadValue
  | TypeMismatch
  | InvalidUUID
  | StaleDbVersion
  | Interrupted
  | BackgroundOperationInProgressForNamespace
  | CollaboratorError nat

datatype status = OK | Error ErrorCodes

text \<open>
  How a call ends: it returns a value, it leaves by a C++ exception (uassert), or the
  process aborts (a failed \<open>invariant\<close> or a null dereference, identified by its
  source line, or LOGV2_FATAL, identified by its log id). \<open>NonTermination\<close> marks a loop that makes no progress.
\<close>

datatype failure = Invariant nat | LogFatal nat | NullPointer nat

datatype 'a outcome = Returns 'a | Throws ErrorCodes | Fatal failure | NonTermination

datatype LockMode = MODE_IS | MODE_IX | MODE_S | MODE_X

datatype lockres = DbResource string | CollectionResource nss

subsection \<open>Collections and the catalog\<close>

record IndexCatalogEntry =
  infoObj :: bsonobj
  isIdIndex :: bool
  isReady :: bool

record Collection =
  c_ns :: nss
  c_uuid :: uuid
  c_temp :: bool
  c_options :: bsonobj
  c_records :: "(rid \<times> bsonobj) list"
  c_indexes :: "IndexCatalogEntry list"

record RenameCollectionOptions =
  dropTarget :: bool
  stayTemp :: bool

datatype event =
    LockDb string LockMode
  | LockCollection nss LockMode
  | OnRenameCollection nss nss "uuid option" "uuid option" nat bool
  | PreRenameCollection nss nss "uuid option" uuid nat bool
  | PostRenameCollection nss nss "uuid option" uuid bool
  | DbRenameCollection nss nss bool
  | DbDropCollection nss optime bool
  | DbCreateCollection nss uuid
  | CreateIndexesOnEmptyCollection uuid "bsonobj list"
  | CheckForInterrupt
  | SeekExact rid
  | InsertDocument bsonobj
  | CursorNext
  | CursorSave
  | CursorRestore
  | WuowCommit
  | WuowAbort

text \<open>
  The collaborators whose answers the rename code reads but never changes. Each field
  stands for a call that leaves src/: the sharding state, the replication coordinator,
  the background-operation registries, the two fail points, the lock manager's resource
  ids, the unique-name and UUID generators, the insert path and the server parameter
  internalInsertMaxBatchSize.
\<close>

record env =
  isSharded :: "nss \<Rightarrow> bool"
  canAcceptWritesFor :: "nss \<Rightarrow> bool"
  isOplogDisabledFor :: "nss \<Rightarrow> bool"
  replicationModeNone :: bool
  dbVersionStale :: "string \<Rightarrow> bool"
  dbDropPending :: "string \<Rightarrow> bool"
  bgOpInProgForNs :: "nss \<Rightarrow> bool"
  indexBuildInProgForCollection :: "uuid \<Rightarrow> bool"
  useRenameCollectionPathThroughConfigsvr :: bool
  resourceIdOf :: "nss \<Rightarrow> nat"
  makeUniqueCollectionNamespace :: "string \<Rightarrow> string \<Rightarrow> ErrorCodes + nss"
  genUUID :: uuid
  observerOpTime :: optime
  dropCollectionVeto :: "nss \<Rightarrow> status"
  userAllowedWriteNS :: "nss \<Rightarrow> status"
  insertDocumentStatus :: "bsonobj \<Rightarrow> status"
  createIndexesStatus :: "bsonobj list \<Rightarrow> status"
  internalInsertMaxBatchSize :: int
  killPending :: bool

text \<open>
  What the rename code can change. The two lists are answers to come: those of the fail
  point writeConflictInRenameCollCopyToTmp to the calls of shouldFail, and, for the calls
  of insertDocument that the bulk copy makes, whether the storage engine raises a
  WriteConflictException in the call. A list that has run out answers no.
\<close>

record world =
  catalog :: "Collection list"
  viewCatalog :: "nss list"
  databases :: "string list"
  locks :: "(lockres \<times> LockMode) list"
  writesAreReplicated :: bool
  writeConflictInRenameCollCopyToTmp :: "bool list"
  insertWriteConflicts :: "bool list"
  trace :: "event list"

definition emit :: "event \<Rightarrow> world \<Rightarrow> world" where
  "emit ev w = w\<lparr>trace := trace w @ [ev]\<rparr>"

text \<open>CollectionCatalog: lookup by namespace and by UUID.\<close>

definition lookupCollectionByNamespace :: "world \<Rightarrow> nss \<Rightarrow> Collection option" where
  "lookupCollectionByNamespace w n = find (\<lambda>c. c_ns c = n) (catalog w)"

definition lookupCollectionByUUID :: "world \<Rightarrow> uuid \<Rightarrow> Collection option" where
  "lookupCollectionByUUID w u = find (\<lambda>c. c_uuid c = u) (catalog w)"

definition getNamespaceFromUUID :: "world \<Rightarrow> uuid \<Rightarrow> nss option" where
  "getNamespaceFromUUID w u = map_option c_ns (lookupCollectionByUUID w u)"

text \<open>DatabaseHolder::getDb and ViewCatalog::get(db)->lookup(ns), for the database \<open>d\<close>.\<close>

definition getDb :: "world \<Rightarrow> string \<Rightarrow> bool" where
  "getDb w d = (d \<in> set (databases w))"

definition viewLookup :: "world \<Rightarrow> string \<Rightarrow> nss \<Rightarrow> bool" where
  "viewLookup w d n = (nss_db n = d \<and> n \<in> set (viewCatalog w))"

definition isCollectionSharded :: "env \<Rightarrow> nss \<Rightarrow> bool" where
  "isCollectionSharded e n = isSharded e n"

definition isReplicatedChanged :: "env \<Rightarrow> nss \<Rightarrow> nss \<Rightarrow> bool" where
  "isReplicatedChanged e source target =
     (isOplogDisabledFor e source \<noteq> isOplogDisabledFor e target)"

subsection \<open>The precondition checker\<close>

text \<open>
  checkSourceAndTargetNamespaces, lines 90-147. The two assertNo... calls raise when a
  background operation or an index build is registered for the source.
\<close>

definition checkSourceAndTargetNamespaces ::
  "env \<Rightarrow> world \<Rightarrow> nss \<Rightarrow> nss \<Rightarrow> RenameCollectionOptions \<Rightarrow> bool \<Rightarrow> status outcome" where
  "checkSourceAndTargetNamespaces e w source target options targetExistsAllowed =
     (if writesAreReplicated w \<and> \<not> canAcceptWritesFor e source then Returns (Error NotMaster)
      else if \<not> useRenameCollectionPathThroughConfigsvr e \<and> isCollectionSharded e source
        then Returns (Error IllegalOperation)
      else if isReplicatedChanged e source target then Returns (Error IllegalOperation)
      else if \<not> getDb w (nss_db source) \<or> dbDropPending e (nss_db source)
        then Returns (Error NamespaceNotFound)
      else (case lookupCollectionByNamespace w source of
        None \<Rightarrow>
          if viewLookup w (nss_db source) source
          then Returns (Error CommandNotSupportedOnView)
          else Returns (Error NamespaceNotFound)
      | Some sourceColl \<Rightarrow>
          if bgOpInProgForNs e source
            then Throws BackgroundOperationInProgressForNamespace
          else if indexBuildInProgForCollection e (c_uuid sourceColl)
            then Throws BackgroundOperationInProgressForNamespace
          else (case lookupCollectionByNamespace w target of
            None \<Rightarrow>
              if viewLookup w (nss_db source) target
              then Returns (Error NamespaceExists)
              else Returns OK
          | Some targetColl \<Rightarrow>
              if isCollectionSharded e target then Returns (Error IllegalOperation)
              else if \<not> targetExistsAllowed \<and> \<not> dropTarget options
                then Returns (Error NamespaceExists)
              else Returns OK)))"


text \<open>Checks 1 to 6 of the checker pass, so that control reaches the target checks.\<close>

definition reachesTargetChecks :: "env \<Rightarrow> world \<Rightarrow> nss \<Rightarrow> nss \<Rightarrow> bool" where
  "reachesTargetChecks e w source target =
     ((writesAreReplicated w \<longrightarrow> canAcceptWritesFor e source) \<and>
      (useRenameCollectionPathThroughConfigsvr e \<or> \<not> isCollectionSharded e source) \<and>
      \<not> isReplicatedChanged e source target \<and>
      getDb w (nss_db source) \<and> \<not> dbDropPending e (nss_db source) \<and>
      (case lookupCollectionByNamespace w source of
         None \<Rightarrow> False
       | Some sourceColl \<Rightarrow>
           \<not> bgOpInProgForNs e source \<and>
           \<not> indexBuildInProgForCollection e (c_uuid sourceColl)))"

subsection \<open>Locks, write units, observer, database object\<close>

definition lockDb :: "string \<Rightarrow> LockMode \<Rightarrow> world \<Rightarrow> world" where
  "lockDb d m w = (emit (LockDb d m) w)\<lparr>locks := locks w @ [(DbResource d, m)]\<rparr>"

definition lockCollection :: "nss \<Rightarrow> LockMode \<Rightarrow> world \<Rightarrow> world" where
  "lockCollection n m w =
     (emit (LockCollection n m) w)\<lparr>locks := locks w @ [(CollectionResource n, m)]\<rparr>"

text \<open>Whether a lock held in mode \<open>h\<close> covers a request for mode \<open>m\<close>.\<close>

fun modeCovers :: "LockMode \<Rightarrow> LockMode \<Rightarrow> bool" where
  "modeCovers MODE_X m = True"
| "modeCovers MODE_S m = (m = MODE_S \<or> m = MODE_IS)"
| "modeCovers MODE_IX m = (m = MODE_IX \<or> m = MODE_IS)"
| "modeCovers MODE_IS m = (m = MODE_IS)"

definition isDbLockedForMode :: "world \<Rightarrow> string \<Rightarrow> LockMode \<Rightarrow> bool" where
  "isDbLockedForMode w d m =
     (\<exists>l \<in> set (locks w). fst l = DbResource d \<and> modeCovers (snd l) m)"

definition isCollectionLockedForMode :: "world \<Rightarrow> nss \<Rightarrow> LockMode \<Rightarrow> bool" where
  "isCollectionLockedForMode w n m =
     ((\<exists>l \<in> set (locks w). fst l = DbResource (nss_db n) \<and>
          (snd l = MODE_X \<or> (snd l = MODE_S \<and> (m = MODE_S \<or> m = MODE_IS)))) \<or>
      (\<exists>l \<in> set (locks w). fst l = CollectionResource n \<and> modeCovers (snd l) m))"

text \<open>
  Lock objects are scoped: when a function returns, the locks it took are released, so
  the set of held locks is again the one of the caller \<open>w0\<close>.
\<close>

definition releaseLocks :: "world \<Rightarrow> (status \<times> world) outcome \<Rightarrow> (status \<times> world) outcome" where
  "releaseLocks w0 r =
     (case r of Returns (st, w) \<Rightarrow> Returns (st, w\<lparr>locks := locks w0\<rparr>) | other \<Rightarrow> other)"

text \<open>
  A WriteUnitOfWork that is destroyed without commit rolls the catalog back to what it
  was when the unit began (\<open>w0\<close>); the record of the calls made stays. An
  UnreplicatedWritesBlock switches replication of writes off until its scope ends.
\<close>

definition wuowAbort :: "world \<Rightarrow> world \<Rightarrow> world" where
  "wuowAbort w0 w = w\<lparr>catalog := catalog w0\<rparr>"

definition unreplicatedWritesBlock :: "world \<Rightarrow> world" where
  "unreplicatedWritesBlock w = w\<lparr>writesAreReplicated := False\<rparr>"

definition endUnreplicatedWritesBlock :: "world \<Rightarrow> world \<Rightarrow> world" where
  "endUnreplicatedWritesBlock w0 w = w\<lparr>writesAreReplicated := writesAreReplicated w0\<rparr>"

text \<open>
  Modelled from the spec: the observer (OpObserver, outside src/) transcribes the
  operation into a replicated log entry. A log position is assigned to replicated
  operations only: preRenameCollection returns the position the log assigns
  (\<open>observerOpTime\<close>) when writes are replicated and the null position otherwise.
\<close>

definition onRenameCollection ::
  "world \<Rightarrow> nss \<Rightarrow> nss \<Rightarrow> uuid option \<Rightarrow> uuid option \<Rightarrow> nat \<Rightarrow> bool \<Rightarrow> world" where
  "onRenameCollection w source target u dropped n st =
     emit (OnRenameCollection source target u dropped n st) w"

definition preRenameCollection ::
  "env \<Rightarrow> world \<Rightarrow> nss \<Rightarrow> nss \<Rightarrow> uuid option \<Rightarrow> uuid \<Rightarrow> nat \<Rightarrow> bool \<Rightarrow> optime \<times> world" where
  "preRenameCollection e w source target u dropped n st =
     ((if writesAreReplicated w then observerOpTime e else None),
      emit (PreRenameCollection source target u dropped n st) w)"

definition postRenameCollection ::
  "world \<Rightarrow> nss \<Rightarrow> nss \<Rightarrow> uuid option \<Rightarrow> uuid \<Rightarrow> bool \<Rightarrow> world" where
  "postRenameCollection w source target u dropped st =
     emit (PostRenameCollection source target u dropped st) w"

text \<open>
  Modelled from the spec: Database::renameCollection(source, target, stayTemp) rebinds
  the catalog entry from source to target, keeping the collection and its UUID; the temp
  flag survives only under stayTemp. It fails when the target name is taken or the
  source is missing.
\<close>

definition Database_renameCollection :: "world \<Rightarrow> nss \<Rightarrow> nss \<Rightarrow> bool \<Rightarrow> status \<times> world" where
  "Database_renameCollection w fromNss toNss st =
     (let w1 = emit (DbRenameCollection fromNss toNss st) w
      in if lookupCollectionByNamespace w toNss \<noteq> None then (Error NamespaceExists, w1)
         else if lookupCollectionByNamespace w fromNss = None then (Error NamespaceNotFound, w1)
         else (OK, w1\<lparr>catalog :=
                 map (\<lambda>c. if c_ns c = fromNss
                          then c\<lparr>c_ns := toNss, c_temp := (c_temp c \<and> st)\<rparr> else c)
                     (catalog w)\<rparr>))"

text \<open>
  Modelled from the spec: Database::dropCollection(ns, logPos) removes the collection
  bound to the name, with its UUID, unless the drop is refused (\<open>dropCollectionVeto\<close>);
  dropping a name that is not bound succeeds and changes nothing. The event records the
  log position passed and whether writes were replicated at the call.
\<close>

definition Database_dropCollection :: "env \<Rightarrow> world \<Rightarrow> nss \<Rightarrow> optime \<Rightarrow> status \<times> world" where
  "Database_dropCollection e w n dropOpTime =
     (let w1 = emit (DbDropCollection n dropOpTime (writesAreReplicated w)) w
      in if lookupCollectionByNamespace w n = None then (OK, w1)
         else (case dropCollectionVeto e n of
                 Error c \<Rightarrow> (Error c, w1)
               | OK \<Rightarrow> (OK, w1\<lparr>catalog := filter (\<lambda>c. c_ns c \<noteq> n) (catalog w)\<rparr>)))"

text \<open>
  Modelled from the spec: dropCollectionForApplyOps (drop_collection.cpp, outside src/)
  is the drop path of apply-ops: NamespaceNotFound when no collection is bound to the
  name, otherwise the database's dropCollection with the given log position.
\<close>

definition dropCollectionForApplyOps :: "env \<Rightarrow> world \<Rightarrow> nss \<Rightarrow> optime \<Rightarrow> status \<times> world" where
  "dropCollectionForApplyOps e w n dropOpTime =
     (if lookupCollectionByNamespace w n = None then (Error NamespaceNotFound, w)
      else Database_dropCollection e w n dropOpTime)"

subsection \<open>Same-database renamers\<close>

text \<open>
  renameTargetCollectionToTmp, lines 149-189. In this and the following functions the
  body of writeConflictRetry runs once: no collaborator of the model raises a write
  conflict there.
\<close>

definition renameTargetCollectionToTmp ::
  "env \<Rightarrow> world \<Rightarrow> nss \<Rightarrow> uuid \<Rightarrow> string \<Rightarrow> nss \<Rightarrow> uuid \<Rightarrow> (status \<times> world) outcome" where
  "renameTargetCollectionToTmp e w sourceNs sourceUUID targetDB targetNs targetUUID =
     (if \<not> isDbLockedForMode w targetDB MODE_X then Fatal (Invariant 159)
      else (case makeUniqueCollectionNamespace e targetDB ''tmp%%%%%.rename'' of
        Inl c \<Rightarrow> Returns (Error c, w)
      | Inr tmpName \<Rightarrow>
          (case Database_renameCollection (unreplicatedWritesBlock w) targetNs tmpName True of
             (Error c, w1) \<Rightarrow> Returns (Error c, endUnreplicatedWritesBlock w (wuowAbort w w1))
           | (OK, w1) \<Rightarrow> Returns (OK, endUnreplicatedWritesBlock w w1))))"

text \<open>renameCollectionDirectly, lines 191-221.\<close>

definition renameCollectionDirectly ::
  "env \<Rightarrow> world \<Rightarrow> string \<Rightarrow> uuid option \<Rightarrow> nss \<Rightarrow> nss \<Rightarrow> RenameCollectionOptions
     \<Rightarrow> (status \<times> world) outcome" where
  "renameCollectionDirectly e w db u source target options =
     (case Database_renameCollection (unreplicatedWritesBlock w) source target
             (stayTemp options) of
        (Error c, w1) \<Rightarrow> Returns (Error c, endUnreplicatedWritesBlock w (wuowAbort w w1))
      | (OK, w1) \<Rightarrow>
          Returns (OK, onRenameCollection (endUnreplicatedWritesBlock w w1) source target u
                         None 0 (stayTemp options)))"

text \<open>renameCollectionAndDropTarget, lines 223-287.\<close>

definition renameCollectionAndDropTarget ::
  "env \<Rightarrow> world \<Rightarrow> string \<Rightarrow> uuid option \<Rightarrow> nss \<Rightarrow> nss \<Rightarrow> Collection
     \<Rightarrow> RenameCollectionOptions \<Rightarrow> optime \<Rightarrow> (status \<times> world) outcome" where
  "renameCollectionAndDropTarget e w db u source target targetColl options
       renameOpTimeFromApplyOps =
     (if \<not> dropTarget options then Fatal (Invariant 235)
      else if \<not> isOplogDisabledFor e target \<and> \<not> writesAreReplicated w
        then Fatal (Invariant 243)
      else if \<not> isOplogDisabledFor e target \<and> renameOpTimeFromApplyOps \<noteq> None
        then Fatal (Invariant 244)
      else (case preRenameCollection e w source target u (c_uuid targetColl)
                  (length (c_records targetColl)) (stayTemp options) of
        (observed, w1) \<Rightarrow>
          if renameOpTimeFromApplyOps \<noteq> None \<and> observed \<noteq> None then Fatal (LogFatal 40616)
          else
            (let renameOpTime =
                   (if renameOpTimeFromApplyOps \<noteq> None then renameOpTimeFromApplyOps
                    else observed);
                 w2 = unreplicatedWritesBlock w1
             in if bgOpInProgForNs e (c_ns targetColl)
                  then Throws BackgroundOperationInProgressForNamespace
                else if indexBuildInProgForCollection e (c_uuid targetColl)
                  then Throws BackgroundOperationInProgressForNamespace
                else (case Database_dropCollection e w2 (c_ns targetColl) renameOpTime of
                  (Error c, w3) \<Rightarrow>
                    Returns (Error c, endUnreplicatedWritesBlock w (wuowAbort w w3))
                | (OK, w3) \<Rightarrow>
                    (case Database_renameCollection w3 source target (stayTemp options) of
                       (Error c, w4) \<Rightarrow>
                         Returns (Error c, endUnreplicatedWritesBlock w (wuowAbort w w4))
                     | (OK, w4) \<Rightarrow>
                         Returns (OK, endUnreplicatedWritesBlock w
                           (postRenameCollection w4 source target u (c_uuid targetColl)
                              (stayTemp options))))))))"

text \<open>The two collection locks of renameCollectionWithinDB, lines 304-318.\<close>

definition lockSourceAndTarget :: "env \<Rightarrow> nss \<Rightarrow> nss \<Rightarrow> world \<Rightarrow> world" where
  "lockSourceAndTarget e source target w =
     (if \<not> isSystemDotViews source \<and>
         (isSystemDotViews target \<or> resourceIdOf e source < resourceIdOf e target)
      then lockCollection target MODE_X (lockCollection source MODE_X w)
      else lockCollection source MODE_X (lockCollection target MODE_X w))"

text \<open>
  renameCollectionWithinDB, lines 289-343. After a successful check the source
  collection is bound; were it not, \<open>sourceColl->uuid()\<close> would dereference null.
\<close>

definition renameCollectionWithinDB ::
  "env \<Rightarrow> world \<Rightarrow> nss \<Rightarrow> nss \<Rightarrow> RenameCollectionOptions \<Rightarrow> (status \<times> world) outcome" where
  "renameCollectionWithinDB e w source target options =
     (if nss_db source \<noteq> nss_db target then Fatal (Invariant 293)
      else
        (let w1 = lockDb (nss_db source) MODE_IX w
         in if dbVersionStale e (nss_db source) then Throws StaleDbVersion
            else
              (let w2 = lockSourceAndTarget e source target w1
               in releaseLocks w
                    (case checkSourceAndTargetNamespaces e w2 source target options False of
                       Throws c \<Rightarrow> Throws c
                     | Fatal f \<Rightarrow> Fatal f
                     | NonTermination \<Rightarrow> NonTermination
                     | Returns (Error c) \<Rightarrow> Returns (Error c, w2)
                     | Returns OK \<Rightarrow>
                         (case lookupCollectionByNamespace w2 source of
                            None \<Rightarrow> Fatal (NullPointer 338)
                          | Some sourceColl \<Rightarrow>
                              (case lookupCollectionByNamespace w2 target of
                                 None \<Rightarrow>
                                   renameCollectionDirectly e w2 (nss_db source)
                                     (Some (c_uuid sourceColl)) source target options
                               | Some targetColl \<Rightarrow>
                                   renameCollectionAndDropTarget e w2 (nss_db source)
                                     (Some (c_uuid sourceColl)) source target targetColl
                                     options None))))))"


text \<open>
  renameCollectionWithinDBForApplyOps, lines 345-453, in three parts: the lookup of the
  collection to drop by UUID (lines 418-426), the final rename or swap-drop (lines
  428-451) and the body of the retry block (lines 377-413) that leads to them. The
  pointer comparison \<open>sourceColl == targetColl\<close> is the comparison of the namespaces
  the two catalog entries are bound to. \<open>w0\<close> is the world when the write unit began.
\<close>

definition applyOpsTargetByUUID ::
  "world \<Rightarrow> nss \<Rightarrow> RenameCollectionOptions \<Rightarrow> uuid option \<Rightarrow> Collection option
     \<Rightarrow> Collection option outcome" where
  "applyOpsTargetByUUID w target options uuidToDrop targetColl =
     (case (targetColl, uuidToDrop) of
        (None, Some u) \<Rightarrow>
          if \<not> dropTarget options then Fatal (Invariant 419)
          else (case getNamespaceFromUUID w u of
                  None \<Rightarrow> Returns None
                | Some n \<Rightarrow>
                    if isDropPendingNamespace n then Returns None
                    else if nss_db n \<noteq> nss_db target then Fatal (Invariant 422)
                    else Returns (lookupCollectionByNamespace w n))
      | _ \<Rightarrow> Returns targetColl)"

definition applyOpsFinish ::
  "env \<Rightarrow> world \<Rightarrow> world \<Rightarrow> Collection \<Rightarrow> nss \<Rightarrow> nss \<Rightarrow> Collection option \<Rightarrow> uuid option
     \<Rightarrow> optime \<Rightarrow> RenameCollectionOptions \<Rightarrow> (status \<times> world) outcome" where
  "applyOpsFinish e w0 w sourceColl source target targetColl uuidToDrop
       renameOpTimeFromApplyOps options =
     (case applyOpsTargetByUUID w target options uuidToDrop targetColl of
        Throws c \<Rightarrow> Throws c
      | Fatal f \<Rightarrow> Fatal f
      | NonTermination \<Rightarrow> NonTermination
      | Returns None \<Rightarrow>
          (case renameCollectionDirectly e w (nss_db source) (Some (c_uuid sourceColl))
                  source target options of
             Returns (Error c, w') \<Rightarrow> Returns (Error c, wuowAbort w0 w')
           | other \<Rightarrow> other)
      | Returns (Some targetColl') \<Rightarrow>
          if c_ns sourceColl = c_ns targetColl' then Returns (OK, w)
          else
            (case renameCollectionAndDropTarget e w (nss_db source)
                    (Some (c_uuid sourceColl)) source target targetColl' options
                    renameOpTimeFromApplyOps of
               Returns (Error c, w') \<Rightarrow> Returns (Error c, wuowAbort w0 w')
             | other \<Rightarrow> other))"

definition applyOpsBody ::
  "env \<Rightarrow> world \<Rightarrow> Collection \<Rightarrow> nss \<Rightarrow> nss \<Rightarrow> uuid option \<Rightarrow> optime
     \<Rightarrow> RenameCollectionOptions \<Rightarrow> (status \<times> world) outcome" where
  "applyOpsBody e w sourceColl source target uuidToDrop renameOpTimeFromApplyOps options =
     (case lookupCollectionByNamespace w target of
        None \<Rightarrow>
          applyOpsFinish e w w sourceColl source target None uuidToDrop
            renameOpTimeFromApplyOps options
      | Some targetColl \<Rightarrow>
          if c_uuid sourceColl = c_uuid targetColl then
            (case uuidToDrop of
               None \<Rightarrow> Returns (OK, w)
             | Some u \<Rightarrow>
                 if u = c_uuid targetColl then Returns (OK, w)
                 else (case getNamespaceFromUUID w u of
                         None \<Rightarrow> Returns (OK, w)
                       | Some collToDropBasedOnUUID \<Rightarrow>
                           (case Database_dropCollection e (unreplicatedWritesBlock w)
                                   collToDropBasedOnUUID renameOpTimeFromApplyOps of
                              (Error c, w1) \<Rightarrow>
                                Returns (Error c, endUnreplicatedWritesBlock w (wuowAbort w w1))
                            | (OK, w1) \<Rightarrow> Returns (OK, endUnreplicatedWritesBlock w w1))))
          else if uuidToDrop \<noteq> Some (c_uuid targetColl) then
            (case renameTargetCollectionToTmp e w source (c_uuid sourceColl) (nss_db source)
                    target (c_uuid targetColl) of
               Returns (OK, w1) \<Rightarrow>
                 applyOpsFinish e w w1 sourceColl source target None uuidToDrop
                   renameOpTimeFromApplyOps options
             | Returns (Error c, w1) \<Rightarrow> Returns (Error c, wuowAbort w w1)
             | other \<Rightarrow> other)
          else
            applyOpsFinish e w w sourceColl source target (Some targetColl) uuidToDrop
              renameOpTimeFromApplyOps options)"

definition renameCollectionWithinDBForApplyOps ::
  "env \<Rightarrow> world \<Rightarrow> nss \<Rightarrow> nss \<Rightarrow> uuid option \<Rightarrow> optime \<Rightarrow> RenameCollectionOptions
     \<Rightarrow> (status \<times> world) outcome" where
  "renameCollectionWithinDBForApplyOps e w source target uuidToDrop renameOpTimeFromApplyOps
       options =
     (if nss_db source \<noteq> nss_db target then Fatal (Invariant 351)
      else
        (let w1 = lockDb (nss_db source) MODE_X w
         in if dbVersionStale e (nss_db source) then Throws StaleDbVersion
            else releaseLocks w
              (case checkSourceAndTargetNamespaces e w1 source target options True of
                 Throws c \<Rightarrow> Throws c
               | Fatal f \<Rightarrow> Fatal f
               | NonTermination \<Rightarrow> NonTermination
               | Returns (Error c) \<Rightarrow> Returns (Error c, w1)
               | Returns OK \<Rightarrow>
                   (case lookupCollectionByNamespace w1 source of
                      None \<Rightarrow> Fatal (NullPointer 382)
                    | Some sourceColl \<Rightarrow>
                        applyOpsBody e w1 sourceColl source target uuidToDrop
                          renameOpTimeFromApplyOps options))))"

subsection \<open>The bulk copy of a cross-database rename\<close>

text \<open>
  Lines 663-705. \<open>cp_record\<close> is the variable \<open>record\<close>, \<open>cp_cursor\<close> what the cursor over
  the source has still to deliver, \<open>cp_tmp\<close> the documents of the staging collection.
  insertLoop is the \<open>for\<close> loop, batchBody the body given to writeConflictRetry for the
  batch that began at \<open>beginBatchId\<close>. A call of insertDocument returns a status or raises
  a WriteConflictException: \<open>wces\<close> says, call by call, whether it raises one, and passes
  through the body from call to call. \<open>fps\<close> holds the answers to come of the fail point
  writeConflictInRenameCollCopyToTmp, asked once the inserts of the batch are done and
  the cursor is saved. An exception raised by an insert leaves the body before the cursor
  is saved and before the restore guard exists; one raised at the fail point unwinds
  through the guard, which restores the cursor, and then through the write unit. A write
  unit that ends without commit discards the documents inserted in it.
  writeConflictRetryBatch retries the body while it leaves by a write conflict; copyLoop
  is the \<open>while\<close> loop. With a batch size of zero or less the \<open>for\<close> loop never runs and
  \<open>record\<close> never changes. The restore of the cursor itself runs once: no conflict is
  raised in it. RecordData is outside src/: releaseToBson is taken to give the document
  of the record at every call.
\<close>

record copy_state =
  cp_record :: "(rid \<times> bsonobj) option"
  cp_cursor :: "(rid \<times> bsonobj) list"
  cp_tmp :: "bsonobj list"
  cp_trace :: "event list"

definition cpEmit :: "event \<Rightarrow> copy_state \<Rightarrow> copy_state" where
  "cpEmit ev st = st\<lparr>cp_trace := cp_trace st @ [ev]\<rparr>"

definition cursorNext :: "copy_state \<Rightarrow> copy_state" where
  "cursorNext st =
     (case cp_cursor st of
        [] \<Rightarrow> (cpEmit CursorNext st)\<lparr>cp_record := None\<rparr>
      | r # rs \<Rightarrow> (cpEmit CursorNext st)\<lparr>cp_record := Some r, cp_cursor := rs\<rparr>)"

definition seekExact :: "(rid \<times> bsonobj) list \<Rightarrow> rid \<Rightarrow> copy_state \<Rightarrow> copy_state" where
  "seekExact recs i st =
     (case dropWhile (\<lambda>r. fst r \<noteq> i) recs of
        [] \<Rightarrow> (cpEmit (SeekExact i) st)\<lparr>cp_record := None, cp_cursor := []\<rparr>
      | r # rs \<Rightarrow> (cpEmit (SeekExact i) st)\<lparr>cp_record := Some r, cp_cursor := rs\<rparr>)"

datatype insert_exit = Inserted | Rejected ErrorCodes | Conflicted

fun insertLoop ::
  "env \<Rightarrow> nat \<Rightarrow> bool list \<Rightarrow> copy_state \<Rightarrow> insert_exit \<times> bool list \<times> copy_state" where
  "insertLoop e 0 wces st = (Inserted, wces, st)"
| "insertLoop e (Suc n) wces st =
     (case cp_record st of
        None \<Rightarrow> (Inserted, wces, st)
      | Some r \<Rightarrow>
          if wces \<noteq> [] \<and> hd wces
          then (Conflicted, tl wces, cpEmit (InsertDocument (snd r)) st)
          else (case insertDocumentStatus e (snd r) of
                  Error c \<Rightarrow> (Rejected c, tl wces, cpEmit (InsertDocument (snd r)) st)
                | OK \<Rightarrow>
                    insertLoop e n (tl wces)
                      (cursorNext ((cpEmit (InsertDocument (snd r)) st)
                                     \<lparr>cp_tmp := cp_tmp st @ [snd r]\<rparr>))))"

text \<open>Lines 672-674: the cursor is sought to the start of the batch when it has left it.\<close>

definition resetCursor :: "(rid \<times> bsonobj) list \<Rightarrow> rid \<Rightarrow> copy_state \<Rightarrow> copy_state" where
  "resetCursor recs beginBatchId st =
     (case cp_record st of
        None \<Rightarrow> seekExact recs beginBatchId st
      | Some r \<Rightarrow> if beginBatchId \<noteq> fst r then seekExact recs beginBatchId st else st)"

datatype batch_exit = Committed | WriteConflict | Failed ErrorCodes

definition batchBody ::
  "env \<Rightarrow> (rid \<times> bsonobj) list \<Rightarrow> rid \<Rightarrow> bool list \<Rightarrow> bool list \<Rightarrow> copy_state
     \<Rightarrow> batch_exit \<times> bool list \<times> bool list \<times> copy_state" where
  "batchBody e recs beginBatchId wces fps st =
     (case insertLoop e (nat (internalInsertMaxBatchSize e)) wces
             (resetCursor recs beginBatchId st) of
        (Rejected c, wces', st2) \<Rightarrow>
          (Failed c, wces', fps, (cpEmit WuowAbort st2)\<lparr>cp_tmp := cp_tmp st\<rparr>)
      | (Conflicted, wces', st2) \<Rightarrow>
          (WriteConflict, wces', fps, (cpEmit WuowAbort st2)\<lparr>cp_tmp := cp_tmp st\<rparr>)
      | (Inserted, wces', st2) \<Rightarrow>
          (let st3 = cpEmit CursorSave st2
           in if fps \<noteq> [] \<and> hd fps
              then (WriteConflict, wces', tl fps,
                    (cpEmit WuowAbort (cpEmit CursorRestore st3))\<lparr>cp_tmp := cp_tmp st\<rparr>)
              else (Committed, wces', tl fps, cpEmit CursorRestore (cpEmit WuowCommit st3))))"

function writeConflictRetryBatch ::
  "env \<Rightarrow> (rid \<times> bsonobj) list \<Rightarrow> rid \<Rightarrow> bool list \<Rightarrow> bool list \<Rightarrow> copy_state
     \<Rightarrow> status \<times> bool list \<times> bool list \<times> copy_state" where
  "writeConflictRetryBatch e recs beginBatchId wces fps st =
     (case batchBody e recs beginBatchId wces fps st of
        (WriteConflict, wces', fps', st') \<Rightarrow>
          writeConflictRetryBatch e recs beginBatchId wces' fps' st'
      | (Committed, wces', fps', st') \<Rightarrow> (OK, wces', fps', st')
      | (Failed c, wces', fps', st') \<Rightarrow> (Error c, wces', fps', st'))"
  by pat_completeness auto
termination
proof (relation "measure (\<lambda>(e, recs, b, wces, fps, st). length wces + length fps)", goal_cases)
  case 1
  show ?case by simp
next
  case (2 e recs beginBatchId wces fps st x y wces' z fps' st')
  have mono: "length (fst (snd (insertLoop e n l s))) \<le> length l" for e n l s
  proof (induction n arbitrary: l s)
    case 0
    show ?case by simp
  next
    case (Suc n)
    have "length (fst (snd (insertLoop e n (tl l) s'))) \<le> length l" for s'
      using Suc.IH [of "tl l" s'] by simp
    then show ?case by (auto split: option.splits status.splits)
  qed
  have il: "fst (insertLoop e n l s) = Conflicted \<Longrightarrow>
            length (fst (snd (insertLoop e n l s))) < length l" for e n l s
  proof (induction n arbitrary: l s)
    case 0
    then show ?case by simp
  next
    case (Suc n)
    show ?case
    proof (cases "cp_record s")
      case None
      with Suc.prems show ?thesis by simp
    next
      case (Some q)
      let ?s' = "cursorNext ((cpEmit (InsertDocument (snd q)) s)\<lparr>cp_tmp := cp_tmp s @ [snd q]\<rparr>)"
      show ?thesis
      proof (cases "l \<noteq> [] \<and> hd l")
        case True
        with Some show ?thesis by (cases l) simp_all
      next
        case False
        with Suc.prems Some have run: "insertLoop e (Suc n) l s = insertLoop e n (tl l) ?s'"
          and c: "fst (insertLoop e n (tl l) ?s') = Conflicted"
          by (auto split: status.splits)
        from Suc.IH [OF c] have "length (fst (snd (insertLoop e n (tl l) ?s'))) < length l"
          by simp
        then show ?thesis by (simp only: run)
      qed
    qed
  qed
  let ?il = "insertLoop e (nat (internalInsertMaxBatchSize e)) wces (resetCursor recs beginBatchId st)"
  obtain ix l' s' where r: "?il = (ix, l', s')" by (cases ?il)
  from il [of e "nat (internalInsertMaxBatchSize e)" wces "resetCursor recs beginBatchId st"]
       mono [of e "nat (internalInsertMaxBatchSize e)" wces "resetCursor recs beginBatchId st"] r
  have a: "ix = Conflicted \<Longrightarrow> length l' < length wces" and b: "length l' \<le> length wces"
    by simp_all
  from 2 r a b have "length wces' + length fps' < length wces + length fps"
    by (cases ix; cases fps)
       (auto simp: batchBody_def Let_def split: if_splits)
  then show ?case by simp
qed

definition remaining :: "copy_state \<Rightarrow> nat" where
  "remaining st = length (cp_cursor st) + (case cp_record st of None \<Rightarrow> 0 | Some r \<Rightarrow> 1)"

function copyLoop ::
  "env \<Rightarrow> (rid \<times> bsonobj) list \<Rightarrow> bool list \<Rightarrow> bool list \<Rightarrow> copy_state
     \<Rightarrow> (status \<times> bool list \<times> bool list \<times> copy_state) outcome" where
  "copyLoop e recs wces fps st =
     (case cp_record st of
        None \<Rightarrow> Returns (OK, wces, fps, st)
      | Some r \<Rightarrow>
          if killPending e then Throws Interrupted
          else if internalInsertMaxBatchSize e \<le> 0 then NonTermination
          else (case writeConflictRetryBatch e recs (fst r) wces fps
                       (cpEmit CheckForInterrupt st) of
                  (Error c, wces', fps', st') \<Rightarrow> Returns (Error c, wces', fps', st')
                | (OK, wces', fps', st') \<Rightarrow> copyLoop e recs wces' fps' st'))"
  by pat_completeness auto
termination
proof (relation "measures [\<lambda>(e, recs, wces, fps, st). length wces + length fps,
                           \<lambda>(e, recs, wces, fps, st). remaining st]", goal_cases)
  case 1
  show ?case by simp
next
  case (2 e recs wces fps st r x y wces' z fps' st')
  let ?N = "nat (internalInsertMaxBatchSize e)"
  have mono: "length (fst (snd (insertLoop e n l s))) \<le> length l" for e n l s
  proof (induction n arbitrary: l s)
    case 0
    show ?case by simp
  next
    case (Suc n)
    have "length (fst (snd (insertLoop e n (tl l) s'))) \<le> length l" for s'
      using Suc.IH [of "tl l" s'] by simp
    then show ?case by (auto split: option.splits status.splits)
  qed
  have confl: "fst (insertLoop e n l s) = Conflicted \<Longrightarrow>
               length (fst (snd (insertLoop e n l s))) < length l" for e n l s
  proof (induction n arbitrary: l s)
    case 0
    then show ?case by simp
  next
    case (Suc n)
    show ?case
    proof (cases "cp_record s")
      case None
      with Suc.prems show ?thesis by simp
    next
      case (Some q)
      let ?s' = "cursorNext ((cpEmit (InsertDocument (snd q)) s)\<lparr>cp_tmp := cp_tmp s @ [snd q]\<rparr>)"
      show ?thesis
      proof (cases "l \<noteq> [] \<and> hd l")
        case True
        with Some show ?thesis by (cases l) simp_all
      next
        case False
        with Suc.prems Some have run: "insertLoop e (Suc n) l s = insertLoop e n (tl l) ?s'"
          and c: "fst (insertLoop e n (tl l) ?s') = Conflicted"
          by (auto split: status.splits)
        from Suc.IH [OF c] have "length (fst (snd (insertLoop e n (tl l) ?s'))) < length l"
          by simp
        then show ?thesis by (simp only: run)
      qed
    qed
  qed
  have rem: "remaining (snd (snd (insertLoop e n l s))) \<le> remaining s" for e n l s
  proof (induction n arbitrary: l s)
    case 0
    show ?case by simp
  next
    case (Suc n)
    show ?case
    proof (cases "cp_record s")
      case None
      then show ?thesis by simp
    next
      case (Some q)
      let ?s' = "cursorNext ((cpEmit (InsertDocument (snd q)) s)\<lparr>cp_tmp := cp_tmp s @ [snd q]\<rparr>)"
      have "remaining ?s' \<le> remaining s"
        using Some by (simp add: remaining_def cursorNext_def cpEmit_def split: list.splits)
      with Suc.IH [of "tl l" ?s'] show ?thesis
        using Some by (auto simp: remaining_def cpEmit_def split: status.splits)
    qed
  qed
  have step: "fst (insertLoop e (Suc n) l s) = Inserted \<Longrightarrow> cp_record s = Some q \<Longrightarrow>
              remaining (snd (snd (insertLoop e (Suc n) l s))) < remaining s" for e n l s q
  proof -
    assume a: "fst (insertLoop e (Suc n) l s) = Inserted" and b: "cp_record s = Some q"
    let ?s' = "cursorNext ((cpEmit (InsertDocument (snd q)) s)\<lparr>cp_tmp := cp_tmp s @ [snd q]\<rparr>)"
    have lt: "remaining ?s' < remaining s"
      using b by (simp add: remaining_def cursorNext_def cpEmit_def split: list.splits)
    from a b have "insertLoop e (Suc n) l s = insertLoop e n (tl l) ?s'"
      by (auto split: status.splits if_splits)
    with lt rem [of e n "tl l" ?s'] show ?thesis by simp
  qed
  have bb: "length (fst (snd (batchBody e recs b l f s))) +
              length (fst (snd (snd (batchBody e recs b l f s)))) \<le> length l + length f \<and>
            (fst (batchBody e recs b l f s) = WriteConflict \<longrightarrow>
               length (fst (snd (batchBody e recs b l f s))) +
                 length (fst (snd (snd (batchBody e recs b l f s)))) < length l + length f)"
    for e recs b l f s
  proof -
    let ?il = "insertLoop e (nat (internalInsertMaxBatchSize e)) l (resetCursor recs b s)"
    obtain ix l' s' where r: "?il = (ix, l', s')" by (cases ?il)
    from confl [of e "nat (internalInsertMaxBatchSize e)" l "resetCursor recs b s"]
         mono [of e "nat (internalInsertMaxBatchSize e)" l "resetCursor recs b s"] r
    have "ix = Conflicted \<Longrightarrow> length l' < length l" and "length l' \<le> length l"
      by simp_all
    with r show ?thesis
      by (cases ix; cases f) (auto simp: batchBody_def Let_def)
  qed
  have rb: "length (fst (snd (writeConflictRetryBatch e recs b l f s))) +
              length (fst (snd (snd (writeConflictRetryBatch e recs b l f s))))
            \<le> length l + length f" for e recs b l f s
  proof (induction e recs b l f s rule: writeConflictRetryBatch.induct)
    case (1 e' recs' b l f s)
    obtain ex l1 f1 s1 where r: "batchBody e' recs' b l f s = (ex, l1, f1, s1)"
      by (cases "batchBody e' recs' b l f s")
    note b1 = bb [of e' recs' b l f s]
    show ?case
    proof (cases ex)
      case WriteConflict
      from "1.IH" [OF r [symmetric] WriteConflict refl refl]
      have "length (fst (snd (writeConflictRetryBatch e' recs' b l1 f1 s1))) +
              length (fst (snd (snd (writeConflictRetryBatch e' recs' b l1 f1 s1))))
            \<le> length l1 + length f1" .
      moreover have "writeConflictRetryBatch e' recs' b l f s =
                     writeConflictRetryBatch e' recs' b l1 f1 s1"
        using r WriteConflict by (subst writeConflictRetryBatch.simps) simp
      ultimately show ?thesis using b1 r WriteConflict by simp
    next
      case Committed
      have "writeConflictRetryBatch e' recs' b l f s = (OK, l1, f1, s1)"
        using r Committed by (subst writeConflictRetryBatch.simps) simp
      then show ?thesis using b1 r by simp
    next
      case (Failed c)
      have "writeConflictRetryBatch e' recs' b l f s = (Error c, l1, f1, s1)"
        using r Failed by (subst writeConflictRetryBatch.simps) simp
      then show ?thesis using b1 r by simp
    qed
  qed
  let ?s = "cpEmit CheckForInterrupt st"
  note rec = 2(1) and pos = 2(3) and run = 2(4) and ok = 2(5) and y = 2(6) and z = 2(7)
  have rc: "resetCursor recs (fst r) ?s = ?s"
    using rec by (simp add: resetCursor_def cpEmit_def)
  have rs: "cp_record ?s = Some r" "remaining ?s = remaining st"
    using rec by (simp_all add: cpEmit_def remaining_def)
  obtain n where n: "nat (internalInsertMaxBatchSize e) = Suc n"
    using pos by (cases "nat (internalInsertMaxBatchSize e)") auto
  obtain ex l1 f1 s1 where r1: "batchBody e recs (fst r) wces fps ?s = (ex, l1, f1, s1)"
    by (cases "batchBody e recs (fst r) wces fps ?s")
  note b1 = bb [of e recs "fst r" wces fps ?s]
  have "length wces' + length fps' < length wces + length fps \<or>
        (length wces' + length fps' = length wces + length fps \<and> remaining st' < remaining st)"
  proof (cases ex)
    case Committed
    have w: "writeConflictRetryBatch e recs (fst r) wces fps ?s = (OK, l1, f1, s1)"
      using r1 Committed by (subst writeConflictRetryBatch.simps) simp
    obtain ix l2 s2 where il: "insertLoop e (Suc n) wces ?s = (ix, l2, s2)"
      by (cases "insertLoop e (Suc n) wces ?s")
    from r1 [unfolded batchBody_def rc n il] Committed
    have ix: "ix = Inserted" and s1: "remaining s1 = remaining s2"
      by (cases ix; auto simp: Let_def cpEmit_def remaining_def split: if_splits)+
    from step [of e n wces ?s r] il ix rs have "remaining s2 < remaining st" by simp
    with s1 w run y z b1 r1 show ?thesis by auto
  next
    case WriteConflict
    have w: "writeConflictRetryBatch e recs (fst r) wces fps ?s =
             writeConflictRetryBatch e recs (fst r) l1 f1 s1"
      using r1 WriteConflict by (subst writeConflictRetryBatch.simps) simp
    from rb [of e recs "fst r" l1 f1 s1] w run y z b1 r1 WriteConflict
    show ?thesis by (cases "writeConflictRetryBatch e recs (fst r) l1 f1 s1") auto
  next
    case (Failed c)
    have "writeConflictRetryBatch e recs (fst r) wces fps ?s = (Error c, l1, f1, s1)"
      using r1 Failed by (subst writeConflictRetryBatch.simps) simp
    with run ok show ?thesis by auto
  qed
  then show ?case by auto
qed

declare writeConflictRetryBatch.simps [simp del] copyLoop.simps [simp del]

text \<open>
  Line 657-658: the cursor is opened on the source and \<open>record\<close> is its first document,
  before the \<open>while\<close> loop is entered; \<open>docs\<close> is what the staging collection holds then.
\<close>

definition copyStart :: "(rid \<times> bsonobj) list \<Rightarrow> bsonobj list \<Rightarrow> copy_state" where
  "copyStart recs docs =
     cursorNext \<lparr>cp_record = None, cp_cursor = recs, cp_tmp = docs, cp_trace = []\<rparr>"


subsection \<open>Cross-database rename\<close>

text \<open>
  IndexCatalog::getIndexIterator(opCtx, includeUnfinishedIndexes) is declared in
  mongo/db/catalog/index_catalog.h, outside src/: with the flag set the iterator
  delivers the ready indexes and then the unfinished ones, without it the ready ones
  only. copyIndexDescriptions is the loop of lines 608-617 over what it delivers.
\<close>

definition getIndexIterator :: "Collection \<Rightarrow> bool \<Rightarrow> IndexCatalogEntry list" where
  "getIndexIterator c includeUnfinishedIndexes =
     (if includeUnfinishedIndexes
      then filter isReady (c_indexes c) @ filter (\<lambda>i. \<not> isReady i) (c_indexes c)
      else filter isReady (c_indexes c))"

fun copyIndexDescriptions :: "IndexCatalogEntry list \<Rightarrow> bsonobj list \<Rightarrow> bsonobj list" where
  "copyIndexDescriptions [] indexesToCopy = indexesToCopy"
| "copyIndexDescriptions (d # ds) indexesToCopy =
     (if isIdIndex d then copyIndexDescriptions ds indexesToCopy
      else copyIndexDescriptions ds (indexesToCopy @ [infoObj d]))"

text \<open>
  Modelled from the spec: Database::createCollection(ns, options) creates an empty
  collection under the name with the given options and UUID; its _id index is created
  implicitly. IndexBuildsCoordinator::createIndexesOnEmptyCollection builds the given
  descriptors, finished, on the collection with the given UUID, or raises.
\<close>

definition idIndexEntry :: IndexCatalogEntry where
  "idIndexEntry = \<lparr>infoObj = ''_id_'', isIdIndex = True, isReady = True\<rparr>"

definition Database_createCollection ::
  "world \<Rightarrow> nss \<Rightarrow> uuid \<Rightarrow> bool \<Rightarrow> bsonobj \<Rightarrow> (Collection \<times> world) outcome" where
  "Database_createCollection w n u tmp opts =
     (if lookupCollectionByNamespace w n \<noteq> None then Throws NamespaceExists
      else
        (let c = \<lparr>c_ns = n, c_uuid = u, c_temp = tmp, c_options = opts, c_records = [],
                  c_indexes = [idIndexEntry]\<rparr>
         in Returns (c, (emit (DbCreateCollection n u) w)\<lparr>catalog := catalog w @ [c]\<rparr>)))"

definition createIndexesOnEmptyCollection ::
  "env \<Rightarrow> world \<Rightarrow> uuid \<Rightarrow> bsonobj list \<Rightarrow> status \<times> world" where
  "createIndexesOnEmptyCollection e w u specs =
     (let w1 = emit (CreateIndexesOnEmptyCollection u specs) w
      in case createIndexesStatus e specs of
           Error c \<Rightarrow> (Error c, w1)
         | OK \<Rightarrow>
             (OK, w1\<lparr>catalog :=
                map (\<lambda>c. if c_uuid c = u
                         then c\<lparr>c_indexes := c_indexes c @
                                  map (\<lambda>s. \<lparr>infoObj = s, isIdIndex = False, isReady = True\<rparr>)
                                      specs\<rparr>
                         else c)
                    (catalog w)\<rparr>))"

text \<open>
  The scope guard of lines 583-605: it drops the staging collection and swallows the
  status of the drop. It runs on every return between its creation and its dismissal.
\<close>

definition tmpCollectionDropper :: "env \<Rightarrow> world \<Rightarrow> nss \<Rightarrow> world" where
  "tmpCollectionDropper e w tmpName = snd (dropCollectionForApplyOps e w tmpName None)"

definition unlock :: "lockres \<times> LockMode \<Rightarrow> world \<Rightarrow> world" where
  "unlock l w = w\<lparr>locks := remove1 l (locks w)\<rparr>"

text \<open>What the copy loop did, written back into the world.\<close>

definition absorbCopy ::
  "world \<Rightarrow> uuid \<Rightarrow> bool list \<Rightarrow> bool list \<Rightarrow> copy_state \<Rightarrow> world" where
  "absorbCopy w u wces fps st =
     w\<lparr>catalog := map (\<lambda>c. if c_uuid c = u
                            then c\<lparr>c_records := enumerate 1 (cp_tmp st)\<rparr> else c)
                     (catalog w),
       writeConflictInRenameCollCopyToTmp := fps,
       insertWriteConflicts := wces,
       trace := trace w @ cp_trace st\<rparr>"

text \<open>
  renameBetweenDBs, lines 455-720, in three parts: the copy and the promotion of the
  staging collection under the scope guard (lines 583-720), the creation of the staging
  collection (lines 543-580), and the locks and checks that come first (lines 459-541).
  \<open>ownsTargetDBLock\<close> and \<open>ownsSourceLocks\<close> say whether this call took the locks itself.
\<close>

definition renameBetweenDBs_copy ::
  "env \<Rightarrow> world \<Rightarrow> nss \<Rightarrow> nss \<Rightarrow> RenameCollectionOptions \<Rightarrow> Collection \<Rightarrow> nss
     \<Rightarrow> Collection \<Rightarrow> bool \<Rightarrow> bool \<Rightarrow> (status \<times> world) outcome" where
  "renameBetweenDBs_copy e w source target options sourceColl tmpName tmpColl
       ownsTargetDBLock ownsSourceLocks =
     (let indexesToCopy = copyIndexDescriptions (getIndexIterator sourceColl True) [];
          built = (if indexesToCopy \<noteq> []
                   then createIndexesOnEmptyCollection e w (c_uuid tmpColl) indexesToCopy
                   else (OK, w))
      in case built of
           (Error c, w1) \<Rightarrow> Returns (Error c, tmpCollectionDropper e (wuowAbort w w1) tmpName)
         | (OK, w1) \<Rightarrow>
             (let w2 = (if ownsTargetDBLock
                        then unlock (DbResource (nss_db target), MODE_X) w1 else w1);
                  w3 = lockDb (nss_db tmpName) MODE_IX w2
              in case lookupCollectionByUUID w3 (c_uuid tmpColl) of
                   None \<Rightarrow> Returns (Error NamespaceNotFound, tmpCollectionDropper e w3 tmpName)
                 | Some tmpColl' \<Rightarrow>
                     (let w4 = lockCollection (c_ns tmpColl') MODE_IX w3
                      in case copyLoop e (c_records sourceColl)
                                (insertWriteConflicts w4)
                                (writeConflictInRenameCollCopyToTmp w4)
                                (copyStart (c_records sourceColl)
                                   (map snd (c_records tmpColl'))) of
                           Throws c \<Rightarrow> Throws c
                         | Fatal f \<Rightarrow> Fatal f
                         | NonTermination \<Rightarrow> NonTermination
                         | Returns (Error c, wces, fps, st) \<Rightarrow>
                             Returns (Error c,
                               tmpCollectionDropper e
                                 (absorbCopy w4 (c_uuid tmpColl) wces fps st) tmpName)
                         | Returns (OK, wces, fps, st) \<Rightarrow>
                             (let w5 = absorbCopy w4 (c_uuid tmpColl) wces fps st;
                                  w6 = unlock (DbResource (nss_db tmpName), MODE_IX)
                                         (unlock (CollectionResource (c_ns tmpColl'), MODE_IX) w5);
                                  w7 = (if ownsSourceLocks
                                        then unlock (DbResource (nss_db source), MODE_IX)
                                               (unlock (CollectionResource source, MODE_S) w6)
                                        else w6)
                              in if nss_db tmpName \<noteq> nss_db target then Fatal (Invariant 712)
                                 else (case renameCollectionWithinDB e w7 tmpName target options of
                                         Returns (Error c, w8) \<Rightarrow>
                                           Returns (Error c, tmpCollectionDropper e w8 tmpName)
                                       | Returns (OK, w8) \<Rightarrow>
                                           Returns (dropCollectionForApplyOps e w8 source None)
                                       | other \<Rightarrow> other)))))"

definition renameBetweenDBs_stage ::
  "env \<Rightarrow> world \<Rightarrow> nss \<Rightarrow> nss \<Rightarrow> RenameCollectionOptions \<Rightarrow> Collection \<Rightarrow> bool \<Rightarrow> bool
     \<Rightarrow> (status \<times> world) outcome" where
  "renameBetweenDBs_stage e w source target options sourceColl ownsTargetDBLock
       ownsSourceLocks =
     (let w1 = (if getDb w (nss_db target) then w
                else w\<lparr>databases := databases w @ [nss_db target]\<rparr>)
      in if \<not> isDbLockedForMode w1 (nss_db target) MODE_X then Fatal (Invariant 551)
         else (case makeUniqueCollectionNamespace e (nss_db target)
                      ''tmp%%%%%.renameCollection'' of
                 Inl c \<Rightarrow> Returns (Error c, w1)
               | Inr tmpName \<Rightarrow>
                   (case Database_createCollection w1 tmpName (genUUID e) (c_temp sourceColl)
                           (c_options sourceColl) of
                      Returns (tmpColl, w2) \<Rightarrow>
                        renameBetweenDBs_copy e w2 source target options sourceColl tmpName
                          tmpColl ownsTargetDBLock ownsSourceLocks
                    | Throws c \<Rightarrow> Throws c
                    | Fatal f \<Rightarrow> Fatal f
                    | NonTermination \<Rightarrow> NonTermination)))"

definition renameBetweenDBs ::
  "env \<Rightarrow> world \<Rightarrow> nss \<Rightarrow> nss \<Rightarrow> RenameCollectionOptions \<Rightarrow> (status \<times> world) outcome" where
  "renameBetweenDBs e w source target options =
     (if nss_db source = nss_db target then Fatal (Invariant 459)
      else
        (let ownsSourceLocks = (\<not> isCollectionLockedForMode w source MODE_S);
             w1 = (if ownsSourceLocks
                   then lockCollection source MODE_S (lockDb (nss_db source) MODE_IX w)
                   else w);
             ownsTargetDBLock = (\<not> isDbLockedForMode w1 (nss_db target) MODE_X);
             w2 = (if ownsTargetDBLock then lockDb (nss_db target) MODE_X w1 else w1)
         in if dbVersionStale e (nss_db source) then Throws StaleDbVersion
            else releaseLocks w
              (if \<not> getDb w2 (nss_db source) then Returns (Error NamespaceNotFound, w2)
               else (case lookupCollectionByNamespace w2 source of
                 None \<Rightarrow>
                   if viewLookup w2 (nss_db source) source
                   then Returns (Error CommandNotSupportedOnView, w2)
                   else Returns (Error NamespaceNotFound, w2)
               | Some sourceColl \<Rightarrow>
                   if \<not> useRenameCollectionPathThroughConfigsvr e \<and>
                      isCollectionSharded e source
                     then Returns (Error IllegalOperation, w2)
                   else if isReplicatedChanged e source target
                     then Returns (Error IllegalOperation, w2)
                   else if bgOpInProgForNs e source
                     then Throws BackgroundOperationInProgressForNamespace
                   else if indexBuildInProgForCollection e (c_uuid sourceColl)
                     then Throws BackgroundOperationInProgressForNamespace
                   else
                     (case (if getDb w2 (nss_db target)
                            then lookupCollectionByNamespace w2 target else None) of
                        Some targetColl \<Rightarrow>
                          if c_uuid sourceColl = c_uuid targetColl then
                            (if source \<noteq> target then Fatal (Invariant 527)
                             else Returns (OK, w2))
                          else if isCollectionSharded e target
                            then Returns (Error IllegalOperation, w2)
                          else if \<not> dropTarget options
                            then Returns (Error NamespaceExists, w2)
                          else renameBetweenDBs_stage e w2 source target options sourceColl
                                 ownsTargetDBLock ownsSourceLocks
                      | None \<Rightarrow>
                          if getDb w2 (nss_db target) \<and> viewLookup w2 (nss_db target) target
                            then Returns (Error NamespaceExists, w2)
                          else renameBetweenDBs_stage e w2 source target options sourceColl
                                 ownsTargetDBLock ownsSourceLocks)))))"

subsection \<open>Entry points\<close>

text \<open>renameCollection, lines 815-845.\<close>

definition renameCollection ::
  "env \<Rightarrow> world \<Rightarrow> nss \<Rightarrow> nss \<Rightarrow> RenameCollectionOptions \<Rightarrow> (status \<times> world) outcome" where
  "renameCollection e w source target options =
     (if isDropPendingNamespace source then Returns (Error NamespaceNotFound, w)
      else if isSystemDotViews source \<or> isSystemDotViews target
        then Returns (Error IllegalOperation, w)
      else if nss_db source = nss_db target
        then renameCollectionWithinDB e w source target options
      else renameBetweenDBs e w source target options)"

text \<open>
  The command document of renameCollectionForApplyOps: its first element and the
  elements \<open>to\<close>, \<open>dropTarget\<close> and \<open>stayTemp\<close>. trueValue is BSONElement::trueValue;
  UUID::parse accepts a binary element that holds a UUID.
\<close>

datatype BSONElement =
    EOO | BNull | BBool bool | BNumber int | BString string
  | BinDataUUID uuid | BinDataOther | BObject

fun trueValue :: "BSONElement \<Rightarrow> bool" where
  "trueValue EOO = False"
| "trueValue BNull = False"
| "trueValue (BBool b) = b"
| "trueValue (BNumber n) = (n \<noteq> 0)"
| "trueValue _ = True"

record RenameCommand =
  cmd_firstElement :: BSONElement
  cmd_to :: BSONElement
  cmd_dropTarget :: BSONElement
  cmd_stayTemp :: BSONElement

text \<open>
  renameCollectionForApplyOps, lines 847-947; the downgrade of the rename to a drop
  (lines 905-928) is applyOpsDowngrade, the choice of the source namespace (lines
  869-875) is applyOpsSourceNss.
\<close>

definition applyOpsDowngrade ::
  "env \<Rightarrow> world \<Rightarrow> nss \<Rightarrow> RenameCollectionOptions \<Rightarrow> uuid option \<Rightarrow> optime
     \<Rightarrow> (status \<times> world) outcome" where
  "applyOpsDowngrade e w targetNss options uuidToDrop renameOpTime =
     (let dropTargetNss0 = (if dropTarget options then Some targetNss else None);
          dropTargetNss = (case uuidToDrop of
                             Some u \<Rightarrow> getNamespaceFromUUID w u
                           | None \<Rightarrow> dropTargetNss0)
      in case dropTargetNss of
           Some n \<Rightarrow> Returns (dropCollectionForApplyOps e w n renameOpTime)
         | None \<Rightarrow> Returns (Error NamespaceNotFound, w))"

definition applyOpsSourceNss :: "world \<Rightarrow> uuid option \<Rightarrow> string \<Rightarrow> nss" where
  "applyOpsSourceNss w uuidToRename sourceNs =
     (case uuidToRename of
        None \<Rightarrow> parseNamespaceString sourceNs
      | Some u \<Rightarrow>
          (case getNamespaceFromUUID w u of
             None \<Rightarrow> parseNamespaceString sourceNs
           | Some n \<Rightarrow> n))"

definition renameCollectionForApplyOps ::
  "env \<Rightarrow> world \<Rightarrow> string \<Rightarrow> uuid option \<Rightarrow> RenameCommand \<Rightarrow> optime
     \<Rightarrow> (status \<times> world) outcome" where
  "renameCollectionForApplyOps e w dbName uuidToRename cmd renameOpTime =
     (if renameOpTime \<noteq> None \<and> writesAreReplicated w then Returns (Error BadValue, w)
      else (case (cmd_firstElement cmd, cmd_to cmd) of
        (BString sourceNs, BString targetNs) \<Rightarrow>
          (let targetNss = parseNamespaceString targetNs;
               sourceNss = applyOpsSourceNss w uuidToRename sourceNs;
               options = \<lparr>dropTarget = trueValue (cmd_dropTarget cmd),
                          stayTemp = trueValue (cmd_stayTemp cmd)\<rparr>
           in if cmd_dropTarget cmd = BinDataOther then Throws InvalidUUID
              else
                (let uuidToDrop = (case cmd_dropTarget cmd of
                                     BinDataUUID u \<Rightarrow> Some u
                                   | _ \<Rightarrow> None)
                 in case userAllowedWriteNS e targetNss of
                      Error c \<Rightarrow> Returns (Error c, w)
                    | OK \<Rightarrow>
                        if replicationModeNone e \<and> isOplog targetNss
                          then Returns (Error IllegalOperation, w)
                        else if isDropPendingNamespace sourceNss \<or>
                                lookupCollectionByNamespace w sourceNss = None
                          then applyOpsDowngrade e w targetNss options uuidToDrop renameOpTime
                        else if nss_db sourceNss = nss_db targetNss
                          then renameCollectionWithinDBForApplyOps e w sourceNss targetNss
                                 uuidToDrop renameOpTime options
                        else renameBetweenDBs e w sourceNss targetNss options))
      | _ \<Rightarrow> Throws TypeMismatch))"


subsection \<open>Observations and sample data\<close>

text \<open>The events a call added to the trace, and the collection locks among events.\<close>

definition newEvents :: "world \<Rightarrow> world \<Rightarrow> event list" where
  "newEvents w w' = drop (length (trace w)) (trace w')"

fun collectionLocks :: "event list \<Rightarrow> nss list" where
  "collectionLocks [] = []"
| "collectionLocks (LockCollection n m # es) = n # collectionLocks es"
| "collectionLocks (ev # es) = collectionLocks es"

fun isRenameEvent :: "event \<Rightarrow> bool" where
  "isRenameEvent (OnRenameCollection s t u d n st) = True"
| "isRenameEvent (PreRenameCollection s t u d n st) = True"
| "isRenameEvent (PostRenameCollection s t u d st) = True"
| "isRenameEvent (DbRenameCollection s t st) = True"
| "isRenameEvent ev = False"

fun isDropEvent :: "event \<Rightarrow> bool" where
  "isDropEvent (DbDropCollection n t r) = True"
| "isDropEvent ev = False"

text \<open>
  A sample node: a primary with the database db1, holding the collections x, y and
  sharded, and the view v.
\<close>

definition sampleEnv :: env where
  "sampleEnv =
     \<lparr>isSharded = (\<lambda>n. n = NamespaceString ''db1'' ''sharded''),
      canAcceptWritesFor = (\<lambda>n. True),
      isOplogDisabledFor = (\<lambda>n. False),
      replicationModeNone = False,
      dbVersionStale = (\<lambda>d. False),
      dbDropPending = (\<lambda>d. False),
      bgOpInProgForNs = (\<lambda>n. False),
      indexBuildInProgForCollection = (\<lambda>u. False),
      useRenameCollectionPathThroughConfigsvr = False,
      resourceIdOf = (\<lambda>n. length (nss_coll n)),
      makeUniqueCollectionNamespace = (\<lambda>d p. Inr (NamespaceString d (''tmp1a2b3'' @ drop 8 p))),
      genUUID = 99,
      observerOpTime = Some 7,
      dropCollectionVeto = (\<lambda>n. OK),
      userAllowedWriteNS = (\<lambda>n. OK),
      insertDocumentStatus = (\<lambda>d. OK),
      createIndexesStatus = (\<lambda>s. OK),
      internalInsertMaxBatchSize = 2,
      killPending = False\<rparr>"

definition sampleX :: Collection where
  "sampleX =
     \<lparr>c_ns = NamespaceString ''db1'' ''x'', c_uuid = 1, c_temp = False, c_options = ''{}'',
      c_records = [(1, ''a''), (2, ''b''), (3, ''c'')],
      c_indexes = [idIndexEntry,
                   \<lparr>infoObj = ''a_1'', isIdIndex = False, isReady = True\<rparr>,
                   \<lparr>infoObj = ''b_1'', isIdIndex = False, isReady = True\<rparr>]\<rparr>"

definition sampleY :: Collection where
  "sampleY =
     \<lparr>c_ns = NamespaceString ''db1'' ''y'', c_uuid = 2, c_temp = False, c_options = ''{}'',
      c_records = [(1, ''d'')], c_indexes = [idIndexEntry]\<rparr>"

definition sampleSharded :: Collection where
  "sampleSharded =
     \<lparr>c_ns = NamespaceString ''db1'' ''sharded'', c_uuid = 3, c_temp = False,
      c_options = ''{}'', c_records = [], c_indexes = [idIndexEntry]\<rparr>"

definition sampleWorld :: world where
  "sampleWorld =
     \<lparr>catalog = [sampleX, sampleY, sampleSharded],
      viewCatalog = [NamespaceString ''db1'' ''v''],
      databases = [''db1''],
      locks = [],
      writesAreReplicated = True,
      writeConflictInRenameCollCopyToTmp = [True],
      insertWriteConflicts = [],
      trace = []\<rparr>"


text \<open>
  The same node as a secondary that applies the operation log: writes are not
  replicated and the oplog is disabled for every namespace.
\<close>

definition secondaryEnv :: env where
  "secondaryEnv = sampleEnv\<lparr>isOplogDisabledFor := (\<lambda>n. True)\<rparr>"

definition secondaryWorld :: world where
  "secondaryWorld = sampleWorld\<lparr>writesAreReplicated := False\<rparr>"

definition renameXtoZ :: RenameCommand where
  "renameXtoZ =
     \<lparr>cmd_firstElement = BString ''db1.x'', cmd_to = BString ''db1.z'',
      cmd_dropTarget = EOO, cmd_stayTemp = EOO\<rparr>"

definition renameGoneToY :: RenameCommand where
  "renameGoneToY =
     \<lparr>cmd_firstElement = BString ''db1.gone'', cmd_to = BString ''db1.y'',
      cmd_dropTarget = BinDataUUID 42, cmd_stayTemp = EOO\<rparr>"

definition dropTargetOptions :: RenameCollectionOptions where
  "dropTargetOptions = \<lparr>dropTarget = True, stayTemp = False\<rparr>"

text \<open>
  What the catalog binds: the UUID of the collection under a name, and the list of the
  (name, UUID) pairs. returnsOK tells a call that returned success.
\<close>

definition uuidAt :: "world \<Rightarrow> nss \<Rightarrow> uuid option" where
  "uuidAt w n = map_option c_uuid (lookupCollectionByNamespace w n)"

definition bindings :: "world \<Rightarrow> (nss \<times> uuid) list" where
  "bindings w = map (\<lambda>c. (c_ns c, c_uuid c)) (catalog w)"

definition returnsOK :: "(status \<times> world) outcome \<Rightarrow> bool" where
  "returnsOK r = (case r of Returns (OK, w) \<Rightarrow> True | _ \<Rightarrow> False)"

text \<open>
  What the copy loop is observed by: \<open>position\<close> is where the cursor stands and what has been
  copied, whatever was logged; \<open>positioned\<close> says that the cursor state is one that a cursor
  over \<open>recs\<close> can be in; \<open>batchEvents\<close> are the events one run of a batch body adds and
  \<open>isUnitEvent\<close> picks those that save or restore the cursor or end the write unit;
  \<open>copied\<close> forgets everything of a result of the loop but the status and the documents of
  the staging collection.
\<close>

definition position :: "copy_state \<Rightarrow> (rid \<times> bsonobj) option \<times> (rid \<times> bsonobj) list \<times> bsonobj list" where
  "position st = (cp_record st, cp_cursor st, cp_tmp st)"

definition positioned :: "(rid \<times> bsonobj) list \<Rightarrow> copy_state \<Rightarrow> bool" where
  "positioned recs st =
     ((cp_record st = None \<longrightarrow> cp_cursor st = []) \<and>
      (\<forall>r. cp_record st = Some r \<longrightarrow> (\<exists>pre. recs = pre @ r # cp_cursor st)))"

fun isUnitEvent :: "event \<Rightarrow> bool" where
  "isUnitEvent CursorSave = True"
| "isUnitEvent CursorRestore = True"
| "isUnitEvent WuowCommit = True"
| "isUnitEvent WuowAbort = True"
| "isUnitEvent ev = False"

fun isSeekEvent :: "event \<Rightarrow> bool" where
  "isSeekEvent (SeekExact i) = True"
| "isSeekEvent ev = False"

fun isInsertEvent :: "event \<Rightarrow> bool" where
  "isInsertEvent (InsertDocument d) = True"
| "isInsertEvent CursorNext = True"
| "isInsertEvent ev = False"

definition batchEvents :: "copy_state \<Rightarrow> copy_state \<Rightarrow> event list" where
  "batchEvents st st' = drop (length (cp_trace st)) (cp_trace st')"

definition copied ::
  "(status \<times> bool list \<times> bool list \<times> copy_state) outcome \<Rightarrow> (status \<times> bsonobj list) outcome" where
  "copied r =
     (case r of
        Returns (s, wces, fps, st) \<Rightarrow> Returns (s, cp_tmp st)
      | Throws c \<Rightarrow> Throws c
      | Fatal f \<Rightarrow> Fatal f
      | NonTermination \<Rightarrow> NonTermination)"










section \<open>Verified properties\<close>

lemmas sample_defs =
  sampleEnv_def sampleWorld_def sampleX_def sampleY_def sampleSharded_def idIndexEntry_def
  secondaryEnv_def secondaryWorld_def dropTargetOptions_def

text \<open>Lookups and the checker do not depend on the locks held or on the trace.\<close>

lemma lookup_lockDb:
  "lookupCollectionByNamespace (lockDb d m w) n = lookupCollectionByNamespace w n"
  by (simp add: lookupCollectionByNamespace_def lockDb_def emit_def)


lemma getNamespaceFromUUID_lockDb:
  "getNamespaceFromUUID (lockDb d m w) u = getNamespaceFromUUID w u"
  by (simp add: getNamespaceFromUUID_def lookupCollectionByUUID_def lockDb_def emit_def)

lemma check_lockDb:
  "checkSourceAndTargetNamespaces e (lockDb d m w) source target options a =
   checkSourceAndTargetNamespaces e w source target options a"
  by (simp add: checkSourceAndTargetNamespaces_def lockDb_def emit_def
        lookupCollectionByNamespace_def getDb_def viewLookup_def
      cong: option.case_cong if_cong)

lemma uuid_bound_to_namespace:
  assumes "getNamespaceFromUUID w u = Some n"
  shows "lookupCollectionByNamespace w n \<noteq> None"
proof -
  from assms obtain c where c: "find (\<lambda>c. c_uuid c = u) (catalog w) = Some c" "c_ns c = n"
    by (auto simp: getNamespaceFromUUID_def lookupCollectionByUUID_def)
  then have "c \<in> set (catalog w)" by (auto simp: find_Some_iff)
  then have "find (\<lambda>c'. c_ns c' = n) (catalog w) \<noteq> None"
    using c(2) by (auto simp: find_None_iff)
  then show ?thesis by (simp add: lookupCollectionByNamespace_def)
qed

lemma collectionLocks_append:
  "collectionLocks (xs @ ys) = collectionLocks xs @ collectionLocks ys"
  by (induction xs rule: collectionLocks.induct) auto

lemma newEvents_lockSourceAndTarget:
  "newEvents w (lockSourceAndTarget e source target w) =
     (if \<not> isSystemDotViews source \<and>
         (isSystemDotViews target \<or> resourceIdOf e source < resourceIdOf e target)
      then [LockCollection source MODE_X, LockCollection target MODE_X]
      else [LockCollection target MODE_X, LockCollection source MODE_X])"
  by (simp add: newEvents_def lockSourceAndTarget_def lockCollection_def emit_def)

subsection \<open>The precondition checker\<close>

text \<open>
  C5. When control reaches the target checks of checkSourceAndTargetNamespaces (checks 1
  to 6 pass) and the target namespace resolves to a collection, the call fails with
  IllegalOperation if that collection is sharded, and with NamespaceExists if it is not
  sharded and neither targetExistsAllowed nor options.dropTarget holds. When the target
  resolves to no collection but to a view of the database, the call fails with
  NamespaceExists.
\<close>

theorem checkSourceAndTargetNamespaces_target_checks:
  assumes "reachesTargetChecks e w source target"
  shows "(\<forall>targetColl. lookupCollectionByNamespace w target = Some targetColl \<longrightarrow>
            (isCollectionSharded e target \<longrightarrow>
               checkSourceAndTargetNamespaces e w source target options targetExistsAllowed
                 = Returns (Error IllegalOperation)) \<and>
            (\<not> isCollectionSharded e target \<and> \<not> targetExistsAllowed \<and>
             \<not> dropTarget options \<longrightarrow>
               checkSourceAndTargetNamespaces e w source target options targetExistsAllowed
                 = Returns (Error NamespaceExists))) \<and>
         (lookupCollectionByNamespace w target = None \<and> nss_db source = nss_db target \<and>
          target \<in> set (viewCatalog w) \<longrightarrow>
            checkSourceAndTargetNamespaces e w source target options targetExistsAllowed
              = Returns (Error NamespaceExists))"
  using assms
  by (auto simp: reachesTargetChecks_def checkSourceAndTargetNamespaces_def viewLookup_def
           split: option.splits)

theorem checkSourceAndTargetNamespaces_target_checks_witness:
  "reachesTargetChecks sampleEnv sampleWorld (NamespaceString ''db1'' ''x'')
     (NamespaceString ''db1'' ''sharded'') \<and>
   lookupCollectionByNamespace sampleWorld (NamespaceString ''db1'' ''sharded'')
     = Some sampleSharded \<and>
   isCollectionSharded sampleEnv (NamespaceString ''db1'' ''sharded'') \<and>
   checkSourceAndTargetNamespaces sampleEnv sampleWorld (NamespaceString ''db1'' ''x'')
     (NamespaceString ''db1'' ''sharded'') \<lparr>dropTarget = True, stayTemp = False\<rparr> True
     = Returns (Error IllegalOperation) \<and>
   reachesTargetChecks sampleEnv sampleWorld (NamespaceString ''db1'' ''x'')
     (NamespaceString ''db1'' ''y'') \<and>
   lookupCollectionByNamespace sampleWorld (NamespaceString ''db1'' ''y'') = Some sampleY \<and>
   \<not> isCollectionSharded sampleEnv (NamespaceString ''db1'' ''y'') \<and>
   checkSourceAndTargetNamespaces sampleEnv sampleWorld (NamespaceString ''db1'' ''x'')
     (NamespaceString ''db1'' ''y'') \<lparr>dropTarget = False, stayTemp = False\<rparr> False
     = Returns (Error NamespaceExists) \<and>
   reachesTargetChecks sampleEnv sampleWorld (NamespaceString ''db1'' ''x'')
     (NamespaceString ''db1'' ''v'') \<and>
   lookupCollectionByNamespace sampleWorld (NamespaceString ''db1'' ''v'') = None \<and>
   NamespaceString ''db1'' ''v'' \<in> set (viewCatalog sampleWorld) \<and>
   checkSourceAndTargetNamespaces sampleEnv sampleWorld (NamespaceString ''db1'' ''x'')
     (NamespaceString ''db1'' ''v'') \<lparr>dropTarget = True, stayTemp = False\<rparr> True
     = Returns (Error NamespaceExists)"
proof -
  have r: "reachesTargetChecks sampleEnv sampleWorld (NamespaceString ''db1'' ''x'') t" for t
    by (simp add: reachesTargetChecks_def sample_defs lookupCollectionByNamespace_def
          isCollectionSharded_def isReplicatedChanged_def getDb_def)
  show ?thesis
    using r
      checkSourceAndTargetNamespaces_target_checks
        [OF r [of "NamespaceString ''db1'' ''sharded''"],
         where options = "\<lparr>dropTarget = True, stayTemp = False\<rparr>"
           and targetExistsAllowed = True]
      checkSourceAndTargetNamespaces_target_checks
        [OF r [of "NamespaceString ''db1'' ''y''"],
         where options = "\<lparr>dropTarget = False, stayTemp = False\<rparr>"
           and targetExistsAllowed = False]
      checkSourceAndTargetNamespaces_target_checks
        [OF r [of "NamespaceString ''db1'' ''v''"],
         where options = "\<lparr>dropTarget = True, stayTemp = False\<rparr>"
           and targetExistsAllowed = True]
    by (simp add: sample_defs lookupCollectionByNamespace_def isCollectionSharded_def)
qed

subsection \<open>The apply-ops entry point\<close>

text \<open>
  C6. renameCollectionForApplyOps returns BadValue, changing nothing, when the rename
  optime it is given is not null and writes are replicated; so a call with a rename
  optime that is not turned down with that BadValue is a call under which writes are not
  replicated.
\<close>

theorem renameCollectionForApplyOps_renameOpTime:
  "(renameOpTime \<noteq> None \<and> writesAreReplicated w \<longrightarrow>
      renameCollectionForApplyOps e w dbName uuidToRename cmd renameOpTime
        = Returns (Error BadValue, w)) \<and>
   (renameOpTime \<noteq> None \<and>
    renameCollectionForApplyOps e w dbName uuidToRename cmd renameOpTime
        \<noteq> Returns (Error BadValue, w) \<longrightarrow> \<not> writesAreReplicated w)"
  by (auto simp: renameCollectionForApplyOps_def)

theorem renameCollectionForApplyOps_renameOpTime_witness:
  "writesAreReplicated sampleWorld \<and>
   renameCollectionForApplyOps sampleEnv sampleWorld ''db1'' None renameXtoZ (Some 5)
     = Returns (Error BadValue, sampleWorld) \<and>
   renameCollectionForApplyOps secondaryEnv secondaryWorld ''db1'' None renameXtoZ (Some 5)
     \<noteq> Returns (Error BadValue, secondaryWorld) \<and>
   \<not> writesAreReplicated secondaryWorld"
proof -
  have ne: "renameCollectionForApplyOps secondaryEnv secondaryWorld ''db1'' None renameXtoZ
              (Some 5) \<noteq> Returns (Error BadValue, secondaryWorld)"
    by (simp add: renameCollectionForApplyOps_def renameXtoZ_def sample_defs
          parseNamespaceString_def applyOpsSourceNss_def isOplog_def
          isDropPendingNamespace_def lookupCollectionByNamespace_def
          renameCollectionWithinDBForApplyOps_def lockDb_def emit_def releaseLocks_def
          checkSourceAndTargetNamespaces_def isCollectionSharded_def isReplicatedChanged_def
          getDb_def viewLookup_def applyOpsBody_def applyOpsFinish_def
          applyOpsTargetByUUID_def renameCollectionDirectly_def Database_renameCollection_def
          unreplicatedWritesBlock_def endUnreplicatedWritesBlock_def onRenameCollection_def
          Let_def)
  have w: "writesAreReplicated sampleWorld" by (simp add: sample_defs)
  show ?thesis
    using ne w
      renameCollectionForApplyOps_renameOpTime
        [of "Some 5" sampleWorld sampleEnv "''db1''" None renameXtoZ]
      renameCollectionForApplyOps_renameOpTime
        [of "Some 5" secondaryWorld secondaryEnv "''db1''" None renameXtoZ]
    by simp
qed


text \<open>
  C9. In renameCollectionForApplyOps, when the source namespace is drop-pending or bound
  to no collection and the command names the collection to drop by a UUID that no
  collection of the catalog has, the call returns NamespaceNotFound and leaves the world
  as it was: nothing is dropped, although the binary dropTarget element counts as a
  request to drop the target, whether or not the target namespace is bound.
\<close>

theorem renameCollectionForApplyOps_uuidToDrop_gone:
  assumes "\<not> (renameOpTime \<noteq> None \<and> writesAreReplicated w)"
      and "cmd_firstElement cmd = BString sourceNs" and "cmd_to cmd = BString targetNs"
      and "cmd_dropTarget cmd = BinDataUUID u"
      and "userAllowedWriteNS e (parseNamespaceString targetNs) = OK"
      and "\<not> (replicationModeNone e \<and> isOplog (parseNamespaceString targetNs))"
      and "isDropPendingNamespace (applyOpsSourceNss w uuidToRename sourceNs) \<or>
           lookupCollectionByNamespace w (applyOpsSourceNss w uuidToRename sourceNs) = None"
      and "getNamespaceFromUUID w u = None"
  shows "trueValue (cmd_dropTarget cmd) \<and>
         renameCollectionForApplyOps e w dbName uuidToRename cmd renameOpTime
           = Returns (Error NamespaceNotFound, w)"
  using assms
  by (auto simp: renameCollectionForApplyOps_def applyOpsDowngrade_def Let_def)

theorem renameCollectionForApplyOps_uuidToDrop_gone_witness:
  "lookupCollectionByNamespace secondaryWorld (parseNamespaceString ''db1.y'') = Some sampleY \<and>
   trueValue (cmd_dropTarget renameGoneToY) \<and>
   renameCollectionForApplyOps secondaryEnv secondaryWorld ''db1'' None renameGoneToY (Some 5)
     = Returns (Error NamespaceNotFound, secondaryWorld)"
proof -
  have src: "applyOpsSourceNss secondaryWorld None ''db1.gone'' = NamespaceString ''db1'' ''gone''"
    by (simp add: applyOpsSourceNss_def parseNamespaceString_def)
  have tgt: "parseNamespaceString ''db1.y'' = NamespaceString ''db1'' ''y''"
    by (simp add: parseNamespaceString_def)
  have h1: "\<not> (Some (5::nat) \<noteq> None \<and> writesAreReplicated secondaryWorld)"
    by (simp add: sample_defs)
  have h5: "userAllowedWriteNS secondaryEnv (parseNamespaceString ''db1.y'') = OK"
    by (simp add: sample_defs)
  have h6: "\<not> (replicationModeNone secondaryEnv \<and> isOplog (parseNamespaceString ''db1.y''))"
    by (simp add: sample_defs)
  have h7: "isDropPendingNamespace (applyOpsSourceNss secondaryWorld None ''db1.gone'') \<or>
            lookupCollectionByNamespace secondaryWorld
              (applyOpsSourceNss secondaryWorld None ''db1.gone'') = None"
    by (simp only: src) (simp add: sample_defs lookupCollectionByNamespace_def)
  have h8: "getNamespaceFromUUID secondaryWorld 42 = None"
    by (simp add: getNamespaceFromUUID_def lookupCollectionByUUID_def sample_defs)
  have y: "lookupCollectionByNamespace secondaryWorld (parseNamespaceString ''db1.y'')
             = Some sampleY"
    by (simp only: tgt) (simp add: sample_defs lookupCollectionByNamespace_def)
  show ?thesis
    using y renameCollectionForApplyOps_uuidToDrop_gone
            [OF h1, of renameGoneToY "''db1.gone''" "''db1.y''" 42 secondaryEnv None "''db1''",
             OF _ _ _ h5 h6 h7 h8]
    by (simp add: renameGoneToY_def)
qed

subsection \<open>Lock order of the same-database rename\<close>

text \<open>
  C7. The two exclusive collection locks of renameCollectionWithinDB are taken on the
  source and the target so that, if either of them is system.views, the one locked
  second is system.views, and otherwise the one locked first has the resource id that is
  not the larger one. Every call that returns has taken exactly these two collection
  locks, in this order.
\<close>

theorem renameCollectionWithinDB_lock_order:
  "(let ls = collectionLocks (newEvents w0 (lockSourceAndTarget e source target w0)) in
      length ls = 2 \<and> set ls = {source, target} \<and>
      (isSystemDotViews source \<or> isSystemDotViews target \<longrightarrow> isSystemDotViews (ls ! 1)) \<and>
      (\<not> isSystemDotViews source \<and> \<not> isSystemDotViews target \<longrightarrow>
         resourceIdOf e (ls ! 0) \<le> resourceIdOf e (ls ! 1))) \<and>
   (\<forall>st w'. renameCollectionWithinDB e w source target options = Returns (st, w') \<longrightarrow>
      collectionLocks (newEvents w w') =
      collectionLocks (newEvents w0 (lockSourceAndTarget e source target w0)))"
proof -
  have a: "(let ls = collectionLocks (newEvents w0 (lockSourceAndTarget e source target w0)) in
      length ls = 2 \<and> set ls = {source, target} \<and>
      (isSystemDotViews source \<or> isSystemDotViews target \<longrightarrow> isSystemDotViews (ls ! 1)) \<and>
      (\<not> isSystemDotViews source \<and> \<not> isSystemDotViews target \<longrightarrow>
         resourceIdOf e (ls ! 0) \<le> resourceIdOf e (ls ! 1)))"
    by (auto simp: newEvents_lockSourceAndTarget Let_def)
  have b: "collectionLocks (newEvents w w') =
      collectionLocks (newEvents w0 (lockSourceAndTarget e source target w0))"
    if run: "renameCollectionWithinDB e w source target options = Returns (st, w')" for st w'
  proof -
    let ?w1 = "lockDb (nss_db source) MODE_IX w"
    let ?w2 = "lockSourceAndTarget e source target ?w1"
    have t2: "trace ?w2 = trace w @ LockDb (nss_db source) MODE_IX #
                newEvents w0 (lockSourceAndTarget e source target w0)"
      by (simp add: newEvents_lockSourceAndTarget)
         (simp add: lockSourceAndTarget_def lockCollection_def lockDb_def emit_def)
    have "\<exists>evs. trace w' = trace ?w2 @ evs \<and> collectionLocks evs = []"
      using run
      by (auto simp: renameCollectionWithinDB_def Let_def releaseLocks_def
            renameCollectionDirectly_def renameCollectionAndDropTarget_def
            Database_renameCollection_def Database_dropCollection_def
            preRenameCollection_def postRenameCollection_def onRenameCollection_def
            unreplicatedWritesBlock_def endUnreplicatedWritesBlock_def wuowAbort_def emit_def
          split: if_splits outcome.splits status.splits option.splits prod.splits)
    then obtain evs where evs: "trace w' = trace ?w2 @ evs" "collectionLocks evs = []"
      by blast
    show ?thesis
      by (simp add: newEvents_def [of w w'] evs t2 collectionLocks_append)
  qed
  from a b show ?thesis by blast
qed

theorem renameCollectionWithinDB_lock_order_witness:
  "isSystemDotViews (NamespaceString ''db1'' ''system.views'') \<and>
   collectionLocks (newEvents sampleWorld
     (lockSourceAndTarget sampleEnv (NamespaceString ''db1'' ''system.views'')
        (NamespaceString ''db1'' ''x'') sampleWorld))
     = [NamespaceString ''db1'' ''x'', NamespaceString ''db1'' ''system.views''] \<and>
   \<not> isSystemDotViews (NamespaceString ''db1'' ''x'') \<and>
   \<not> isSystemDotViews (NamespaceString ''db1'' ''zz'') \<and>
   (\<exists>st w'. renameCollectionWithinDB sampleEnv sampleWorld (NamespaceString ''db1'' ''x'')
               (NamespaceString ''db1'' ''zz'') dropTargetOptions = Returns (st, w') \<and>
             collectionLocks (newEvents sampleWorld w')
               = [NamespaceString ''db1'' ''x'', NamespaceString ''db1'' ''zz''])"
proof -
  let ?x = "NamespaceString ''db1'' ''x''" and ?zz = "NamespaceString ''db1'' ''zz''"
  obtain st w' where run:
    "renameCollectionWithinDB sampleEnv sampleWorld ?x ?zz dropTargetOptions = Returns (st, w')"
    by (simp add: renameCollectionWithinDB_def Let_def sample_defs releaseLocks_def
          lockSourceAndTarget_def isSystemDotViews_def lockCollection_def lockDb_def emit_def
          checkSourceAndTargetNamespaces_def isCollectionSharded_def isReplicatedChanged_def
          getDb_def viewLookup_def lookupCollectionByNamespace_def renameCollectionDirectly_def
          Database_renameCollection_def unreplicatedWritesBlock_def
          endUnreplicatedWritesBlock_def onRenameCollection_def)
  have rid: "resourceIdOf sampleEnv n = length (nss_coll n)" for n
    by (simp add: sampleEnv_def)
  have ls: "collectionLocks (newEvents sampleWorld
              (lockSourceAndTarget sampleEnv s t sampleWorld)) =
            (if \<not> isSystemDotViews s \<and>
                (isSystemDotViews t \<or> resourceIdOf sampleEnv s < resourceIdOf sampleEnv t)
             then [s, t] else [t, s])" for s t
    by (simp add: newEvents_lockSourceAndTarget)
  from renameCollectionWithinDB_lock_order
         [of sampleWorld sampleEnv ?x ?zz sampleWorld dropTargetOptions] run
  have "collectionLocks (newEvents sampleWorld w') =
        collectionLocks (newEvents sampleWorld
          (lockSourceAndTarget sampleEnv ?x ?zz sampleWorld))"
    by blast
  then have "collectionLocks (newEvents sampleWorld w') = [?x, ?zz]"
    by (simp add: ls isSystemDotViews_def rid)
  with run show ?thesis
    by (simp add: ls isSystemDotViews_def rid)
qed

subsection \<open>Cross-database rename onto a collection with the source's UUID\<close>













subsection \<open>The swap-drop renamer under apply-ops\<close>

text \<open>
  C4. When renameCollectionAndDropTarget is given a rename optime from apply-ops that is
  not null: every call that returns has called dropCollection exactly once, on the target
  collection, with that optime and with replication of writes switched off; if the
  observer's preRenameCollection answers with a log position (the invariants of lines
  235-245 passing), the call ends in the fatal log 40616; and when writes are not
  replicated the call never ends there.
\<close>

theorem renameCollectionAndDropTarget_applyOps_optime:
  assumes "renameOpTimeFromApplyOps \<noteq> None"
  shows "(\<forall>st w'. renameCollectionAndDropTarget e w db u source target targetColl options
                    renameOpTimeFromApplyOps = Returns (st, w') \<longrightarrow>
            filter isDropEvent (newEvents w w') =
              [DbDropCollection (c_ns targetColl) renameOpTimeFromApplyOps False]) \<and>
         (dropTarget options \<and> isOplogDisabledFor e target \<and>
          fst (preRenameCollection e w source target u (c_uuid targetColl)
                 (length (c_records targetColl)) (stayTemp options)) \<noteq> None \<longrightarrow>
            renameCollectionAndDropTarget e w db u source target targetColl options
              renameOpTimeFromApplyOps = Fatal (LogFatal 40616)) \<and>
         (\<not> writesAreReplicated w \<longrightarrow>
            renameCollectionAndDropTarget e w db u source target targetColl options
              renameOpTimeFromApplyOps \<noteq> Fatal (LogFatal 40616))"
  using assms
  by (auto simp: renameCollectionAndDropTarget_def Let_def newEvents_def
        Database_renameCollection_def Database_dropCollection_def
        preRenameCollection_def postRenameCollection_def
        unreplicatedWritesBlock_def endUnreplicatedWritesBlock_def wuowAbort_def emit_def
      split: if_splits status.splits option.splits prod.splits)

theorem renameCollectionAndDropTarget_applyOps_optime_witness:
  "(\<exists>st w'. renameCollectionAndDropTarget secondaryEnv secondaryWorld ''db1'' (Some 1)
       (NamespaceString ''db1'' ''x'') (NamespaceString ''db1'' ''y'') sampleY
       dropTargetOptions (Some 5) = Returns (st, w') \<and>
     filter isDropEvent (newEvents secondaryWorld w') =
       [DbDropCollection (NamespaceString ''db1'' ''y'') (Some 5) False]) \<and>
   dropTarget dropTargetOptions \<and>
   isOplogDisabledFor secondaryEnv (NamespaceString ''db1'' ''y'') \<and>
   fst (preRenameCollection secondaryEnv sampleWorld (NamespaceString ''db1'' ''x'')
          (NamespaceString ''db1'' ''y'') (Some 1) (c_uuid sampleY)
          (length (c_records sampleY)) (stayTemp dropTargetOptions)) \<noteq> None \<and>
   renameCollectionAndDropTarget secondaryEnv sampleWorld ''db1'' (Some 1)
       (NamespaceString ''db1'' ''x'') (NamespaceString ''db1'' ''y'') sampleY
       dropTargetOptions (Some 5) = Fatal (LogFatal 40616) \<and>
   \<not> writesAreReplicated secondaryWorld \<and>
   renameCollectionAndDropTarget secondaryEnv secondaryWorld ''db1'' (Some 1)
       (NamespaceString ''db1'' ''x'') (NamespaceString ''db1'' ''y'') sampleY
       dropTargetOptions (Some 5) \<noteq> Fatal (LogFatal 40616)"
proof -
  let ?x = "NamespaceString ''db1'' ''x''" and ?y = "NamespaceString ''db1'' ''y''"
  have ts: "Some (5::nat) \<noteq> None" by simp
  obtain st w' where run:
    "renameCollectionAndDropTarget secondaryEnv secondaryWorld ''db1'' (Some 1) ?x ?y sampleY
       dropTargetOptions (Some 5) = Returns (st, w')"
    by (simp add: renameCollectionAndDropTarget_def Let_def sample_defs
          preRenameCollection_def postRenameCollection_def Database_dropCollection_def
          Database_renameCollection_def lookupCollectionByNamespace_def emit_def
          unreplicatedWritesBlock_def endUnreplicatedWritesBlock_def)
  have ns: "c_ns sampleY = ?y" by (simp add: sample_defs)
  have a: "dropTarget dropTargetOptions" "isOplogDisabledFor secondaryEnv ?y"
          "\<not> writesAreReplicated secondaryWorld"
    by (simp_all add: sample_defs)
  have b: "fst (preRenameCollection secondaryEnv sampleWorld ?x ?y (Some 1) (c_uuid sampleY)
              (length (c_records sampleY)) (stayTemp dropTargetOptions)) \<noteq> None"
    by (simp add: preRenameCollection_def sample_defs)
  show ?thesis
    using run a b ns
      renameCollectionAndDropTarget_applyOps_optime
        [OF ts, of secondaryEnv secondaryWorld "''db1''" "Some 1" ?x ?y sampleY
           dropTargetOptions]
      renameCollectionAndDropTarget_applyOps_optime
        [OF ts, of secondaryEnv sampleWorld "''db1''" "Some 1" ?x ?y sampleY
           dropTargetOptions]
    by auto
qed

subsection \<open>Apply-ops rename of a collection that is already under the target name\<close>

text \<open>
  C10. In renameCollectionWithinDBForApplyOps, when the checks pass, the target
  collection exists with the UUID of the source collection, and a uuidToDrop other than
  that UUID is given: if no collection has uuidToDrop, the call returns success and the
  catalog is as before (the database lock is all it took); if a collection has it and
  its drop is not refused, the call returns success after dropping exactly that
  collection, with the optime of apply-ops and with replication of writes switched off,
  and it makes no rename and tells the observer of none.
\<close>

theorem renameCollectionWithinDBForApplyOps_already_renamed:
  assumes "nss_db source = nss_db target" and "\<not> dbVersionStale e (nss_db source)"
      and "checkSourceAndTargetNamespaces e w source target options True = Returns OK"
      and "lookupCollectionByNamespace w source = Some sourceColl"
      and "lookupCollectionByNamespace w target = Some targetColl"
      and "c_uuid sourceColl = c_uuid targetColl"
      and "uuidToDrop = Some u" and "u \<noteq> c_uuid targetColl"
  shows "(getNamespaceFromUUID w u = None \<longrightarrow>
            (\<exists>w'. renameCollectionWithinDBForApplyOps e w source target uuidToDrop
                     renameOpTimeFromApplyOps options = Returns (OK, w') \<and>
                   catalog w' = catalog w \<and>
                   newEvents w w' = [LockDb (nss_db source) MODE_X])) \<and>
         (\<forall>n. getNamespaceFromUUID w u = Some n \<and> dropCollectionVeto e n = OK \<longrightarrow>
            (\<exists>w'. renameCollectionWithinDBForApplyOps e w source target uuidToDrop
                     renameOpTimeFromApplyOps options = Returns (OK, w') \<and>
                   catalog w' = filter (\<lambda>c. c_ns c \<noteq> n) (catalog w) \<and>
                   writesAreReplicated w' = writesAreReplicated w \<and>
                   newEvents w w' =
                     [LockDb (nss_db source) MODE_X,
                      DbDropCollection n renameOpTimeFromApplyOps False] \<and>
                   filter isRenameEvent (newEvents w w') = []))"
proof -
  let ?w1 = "lockDb (nss_db source) MODE_X w"
  have c1: "checkSourceAndTargetNamespaces e ?w1 source target options True = Returns OK"
    using assms(3) by (simp add: check_lockDb)
  have s1: "lookupCollectionByNamespace ?w1 source = Some sourceColl"
    and t1: "lookupCollectionByNamespace ?w1 target = Some targetColl"
    using assms(4,5) by (simp_all add: lookup_lockDb)
  have run: "renameCollectionWithinDBForApplyOps e w source target uuidToDrop
               renameOpTimeFromApplyOps options =
             releaseLocks w (applyOpsBody e ?w1 sourceColl source target (Some u)
               renameOpTimeFromApplyOps options)"
    using assms(2,7)
    by (simp add: renameCollectionWithinDBForApplyOps_def Let_def assms(1) [symmetric] c1 s1)
  have none: "applyOpsBody e ?w1 sourceColl source target (Some u) renameOpTimeFromApplyOps
                options = Returns (OK, ?w1)"
    if "getNamespaceFromUUID w u = None"
    using that assms(6,8) by (simp add: applyOpsBody_def t1 getNamespaceFromUUID_lockDb)
  have some: "applyOpsBody e ?w1 sourceColl source target (Some u) renameOpTimeFromApplyOps
                options =
              Returns (OK, endUnreplicatedWritesBlock ?w1
                 ((emit (DbDropCollection n renameOpTimeFromApplyOps False)
                     (unreplicatedWritesBlock ?w1))
                   \<lparr>catalog := filter (\<lambda>c. c_ns c \<noteq> n) (catalog ?w1)\<rparr>))"
    if "getNamespaceFromUUID w u = Some n" "dropCollectionVeto e n = OK" for n
  proof -
    have "lookupCollectionByNamespace (unreplicatedWritesBlock ?w1) n \<noteq> None"
      using uuid_bound_to_namespace [OF that(1)]
      by (simp add: lookupCollectionByNamespace_def unreplicatedWritesBlock_def lockDb_def
            emit_def)
    then have d: "Database_dropCollection e (unreplicatedWritesBlock ?w1) n
                    renameOpTimeFromApplyOps =
                  (OK, (emit (DbDropCollection n renameOpTimeFromApplyOps False)
                          (unreplicatedWritesBlock ?w1))
                        \<lparr>catalog := filter (\<lambda>c. c_ns c \<noteq> n) (catalog ?w1)\<rparr>)"
      using that(2)
      by (auto simp: Database_dropCollection_def Let_def unreplicatedWritesBlock_def)
    show ?thesis
      using that(1) assms(6,8)
      by (simp add: applyOpsBody_def t1 getNamespaceFromUUID_lockDb d)
  qed
  show ?thesis
  proof (intro conjI impI allI)
    assume "getNamespaceFromUUID w u = None"
    from none [OF this] show "\<exists>w'. renameCollectionWithinDBForApplyOps e w source target
        uuidToDrop renameOpTimeFromApplyOps options = Returns (OK, w') \<and>
        catalog w' = catalog w \<and> newEvents w w' = [LockDb (nss_db source) MODE_X]"
      by (simp add: run releaseLocks_def newEvents_def lockDb_def emit_def)
  next
    fix n
    assume "getNamespaceFromUUID w u = Some n \<and> dropCollectionVeto e n = OK"
    then have "applyOpsBody e ?w1 sourceColl source target (Some u) renameOpTimeFromApplyOps
                options =
              Returns (OK, endUnreplicatedWritesBlock ?w1
                 ((emit (DbDropCollection n renameOpTimeFromApplyOps False)
                     (unreplicatedWritesBlock ?w1))
                   \<lparr>catalog := filter (\<lambda>c. c_ns c \<noteq> n) (catalog ?w1)\<rparr>))"
      using some by blast
    then show "\<exists>w'. renameCollectionWithinDBForApplyOps e w source target
        uuidToDrop renameOpTimeFromApplyOps options = Returns (OK, w') \<and>
        catalog w' = filter (\<lambda>c. c_ns c \<noteq> n) (catalog w) \<and>
        writesAreReplicated w' = writesAreReplicated w \<and>
        newEvents w w' =
          [LockDb (nss_db source) MODE_X, DbDropCollection n renameOpTimeFromApplyOps False] \<and>
        filter isRenameEvent (newEvents w w') = []"
      by (simp add: run releaseLocks_def newEvents_def lockDb_def emit_def
            unreplicatedWritesBlock_def endUnreplicatedWritesBlock_def)
  qed
qed

theorem renameCollectionWithinDBForApplyOps_already_renamed_witness:
  "getNamespaceFromUUID secondaryWorld 42 = None \<and>
   (\<exists>w'. renameCollectionWithinDBForApplyOps secondaryEnv secondaryWorld
            (NamespaceString ''db1'' ''y'') (NamespaceString ''db1'' ''y'') (Some 42) (Some 5)
            dropTargetOptions = Returns (OK, w') \<and>
          catalog w' = catalog secondaryWorld) \<and>
   getNamespaceFromUUID secondaryWorld 1 = Some (NamespaceString ''db1'' ''x'') \<and>
   (\<exists>w'. renameCollectionWithinDBForApplyOps secondaryEnv secondaryWorld
            (NamespaceString ''db1'' ''y'') (NamespaceString ''db1'' ''y'') (Some 1) (Some 5)
            dropTargetOptions = Returns (OK, w') \<and>
          catalog w' = [sampleY, sampleSharded] \<and>
          newEvents secondaryWorld w' =
            [LockDb ''db1'' MODE_X,
             DbDropCollection (NamespaceString ''db1'' ''x'') (Some 5) False])"
proof -
  let ?y = "NamespaceString ''db1'' ''y''" and ?x = "NamespaceString ''db1'' ''x''"
  have h1: "nss_db ?y = nss_db ?y" by simp
  have h2: "\<not> dbVersionStale secondaryEnv (nss_db ?y)" by (simp add: sample_defs)
  have h3: "checkSourceAndTargetNamespaces secondaryEnv secondaryWorld ?y ?y dropTargetOptions
              True = Returns OK"
    by (simp add: checkSourceAndTargetNamespaces_def sample_defs isCollectionSharded_def
          isReplicatedChanged_def getDb_def lookupCollectionByNamespace_def)
  have h4: "lookupCollectionByNamespace secondaryWorld ?y = Some sampleY"
    by (simp add: lookupCollectionByNamespace_def sample_defs)
  have h6: "c_uuid sampleY = c_uuid sampleY" by simp
  have h8: "42 \<noteq> c_uuid sampleY" "1 \<noteq> c_uuid sampleY" by (simp_all add: sample_defs)
  have g42: "getNamespaceFromUUID secondaryWorld 42 = None"
    by (simp add: getNamespaceFromUUID_def lookupCollectionByUUID_def sample_defs)
  have g1: "getNamespaceFromUUID secondaryWorld 1 = Some ?x"
    by (simp add: getNamespaceFromUUID_def lookupCollectionByUUID_def sample_defs)
  have v: "dropCollectionVeto secondaryEnv ?x = OK" by (simp add: sample_defs)
  have f: "filter (\<lambda>c. c_ns c \<noteq> ?x) (catalog secondaryWorld) = [sampleY, sampleSharded]"
    by (simp add: secondaryWorld_def sampleWorld_def)
       (simp add: sampleX_def sampleY_def sampleSharded_def)
  from renameCollectionWithinDBForApplyOps_already_renamed
         [OF h1 h2 h3 h4 h4 h6 refl h8(1), of "Some 5"] g42
  have a: "\<exists>w'. renameCollectionWithinDBForApplyOps secondaryEnv secondaryWorld ?y ?y (Some 42)
             (Some 5) dropTargetOptions = Returns (OK, w') \<and> catalog w' = catalog secondaryWorld"
    by blast
  from renameCollectionWithinDBForApplyOps_already_renamed
         [OF h1 h2 h3 h4 h4 h6 refl h8(2), of "Some 5"] g1 v
  have b: "\<exists>w'. renameCollectionWithinDBForApplyOps secondaryEnv secondaryWorld ?y ?y (Some 1)
             (Some 5) dropTargetOptions = Returns (OK, w') \<and>
             catalog w' = filter (\<lambda>c. c_ns c \<noteq> ?x) (catalog secondaryWorld) \<and>
             newEvents secondaryWorld w' =
               [LockDb (nss_db ?y) MODE_X, DbDropCollection ?x (Some 5) False]"
    by blast
  from a b g42 g1 show ?thesis by (simp add: f)
qed


subsection \<open>The UUID of the renamed collection\<close>

text \<open>How the catalog operations act on the bindings of names to UUIDs.\<close>

lemma find_bindings:
  "map_option c_uuid (find (\<lambda>c. c_ns c = n) cs) = map_of (map (\<lambda>c. (c_ns c, c_uuid c)) cs) n"
  by (induction cs) auto

lemma uuidAt_bindings: "uuidAt w n = map_of (bindings w) n"
  by (simp add: uuidAt_def bindings_def lookupCollectionByNamespace_def find_bindings)

lemma lookup_None_bindings:
  "(lookupCollectionByNamespace w n = None) = (map_of (bindings w) n = None)"
proof -
  have "(lookupCollectionByNamespace w n = None) = (uuidAt w n = None)"
    by (simp add: uuidAt_def)
  then show ?thesis by (simp add: uuidAt_bindings)
qed

lemma bindings_rename:
  "map (\<lambda>c. (c_ns c, c_uuid c))
     (map (\<lambda>c. if c_ns c = s then c\<lparr>c_ns := t, c_temp := (c_temp c \<and> st)\<rparr> else c) cs) =
   map (\<lambda>(n, u). (if n = s then t else n, u)) (map (\<lambda>c. (c_ns c, c_uuid c)) cs)"
  by (induction cs) auto

lemma map_of_rename:
  "map_of bs t = None \<Longrightarrow>
   map_of (map (\<lambda>(n, u). (if n = s then t else n, u)) bs) m =
     (if m = t then map_of bs s else if m = s then None else map_of bs m)"
proof (induction bs arbitrary: m)
  case Nil
  show ?case by simp
next
  case (Cons b bs)
  obtain n u where b: "b = (n, u)" by (cases b)
  from Cons.prems b have nt: "n \<noteq> t" and r: "map_of bs t = None"
    by (auto split: if_splits)
  show ?case
    using Cons.IH [OF r, of m] Cons.IH [OF r, of s] Cons.IH [OF r, of t] nt
    by (simp add: b)
qed

lemma bindings_drop:
  "map (\<lambda>c. (c_ns c, c_uuid c)) (filter (\<lambda>c. c_ns c \<noteq> n) cs) =
   filter (\<lambda>b. fst b \<noteq> n) (map (\<lambda>c. (c_ns c, c_uuid c)) cs)"
  by (induction cs) auto

lemma map_of_drop:
  "map_of (filter (\<lambda>b. fst b \<noteq> n) bs) m = (if m = n then None else map_of bs m)"
  by (induction bs) auto

lemma Database_renameCollection_uuidAt:
  assumes "Database_renameCollection w s t st = (OK, w')"
  shows "uuidAt w s \<noteq> None \<and>
         uuidAt w' m = (if m = t then uuidAt w s else if m = s then None else uuidAt w m)"
proof -
  from assms have t: "map_of (bindings w) t = None" and s: "map_of (bindings w) s \<noteq> None"
    and c: "bindings w' = map (\<lambda>(n, u). (if n = s then t else n, u)) (bindings w)"
    by (auto simp: Database_renameCollection_def Let_def lookup_None_bindings bindings_def
          bindings_rename emit_def split: if_splits)
  show ?thesis
    using s by (simp add: uuidAt_bindings c map_of_rename [OF t])
qed

lemma Database_dropCollection_uuidAt:
  assumes "Database_dropCollection e w n ts = (OK, w')"
  shows "uuidAt w' m = (if m = n then None else uuidAt w m)"
proof (cases "lookupCollectionByNamespace w n = None")
  case True
  then have "bindings w' = bindings w" and "uuidAt w n = None"
    using assms by (auto simp: Database_dropCollection_def Let_def bindings_def emit_def uuidAt_def)
  then show ?thesis by (simp add: uuidAt_bindings)
next
  case False
  then have "bindings w' = filter (\<lambda>b. fst b \<noteq> n) (bindings w)"
    using assms
    by (auto simp: Database_dropCollection_def Let_def bindings_def emit_def bindings_drop
          split: status.splits)
  then show ?thesis by (simp add: uuidAt_bindings map_of_drop)
qed

lemma uuidAt_frame:
  "bindings w' = bindings w \<Longrightarrow> uuidAt w' = uuidAt w"
  by (simp add: fun_eq_iff uuidAt_bindings)

lemma lookup_c_ns: "lookupCollectionByNamespace w n = Some c \<Longrightarrow> c_ns c = n"
  by (auto simp: lookupCollectionByNamespace_def find_Some_iff)

lemma renameCollectionDirectly_uuidAt:
  assumes "renameCollectionDirectly e w db u s t options = Returns (OK, w')"
  shows "uuidAt w s \<noteq> None \<and>
         uuidAt w' m = (if m = t then uuidAt w s else if m = s then None else uuidAt w m)"
proof -
  from assms obtain w1 where r: "Database_renameCollection (unreplicatedWritesBlock w) s t
      (stayTemp options) = (OK, w1)" and b: "bindings w' = bindings w1"
    by (auto simp: renameCollectionDirectly_def onRenameCollection_def emit_def bindings_def
          endUnreplicatedWritesBlock_def split: prod.splits status.splits)
  have u: "uuidAt (unreplicatedWritesBlock w) = uuidAt w"
    by (rule uuidAt_frame) (simp add: bindings_def unreplicatedWritesBlock_def)
  from Database_renameCollection_uuidAt [OF r, of m] show ?thesis
    by (simp add: uuidAt_frame [OF b] u)
qed

lemma renameCollectionAndDropTarget_uuidAt:
  assumes "renameCollectionAndDropTarget e w db u s t targetColl options ts = Returns (OK, w')"
  shows "uuidAt w s \<noteq> None \<and> s \<noteq> c_ns targetColl \<and>
         uuidAt w' m = (if m = t then uuidAt w s
                        else if m = s \<or> m = c_ns targetColl then None else uuidAt w m)"
proof -
  from assms obtain ot w1 w3 w4 where
        p: "preRenameCollection e w s t u (c_uuid targetColl) (length (c_records targetColl))
              (stayTemp options) = (ot, w1)"
    and d: "Database_dropCollection e (unreplicatedWritesBlock w1) (c_ns targetColl)
              (if ts \<noteq> None then ts else ot) = (OK, w3)"
    and r: "Database_renameCollection w3 s t (stayTemp options) = (OK, w4)"
    and b: "bindings w' = bindings w4"
    by (auto simp: renameCollectionAndDropTarget_def Let_def postRenameCollection_def emit_def
          bindings_def endUnreplicatedWritesBlock_def
          split: prod.splits status.splits if_splits)
  have u: "uuidAt (unreplicatedWritesBlock w1) = uuidAt w"
    using p by (intro uuidAt_frame)
      (auto simp: bindings_def unreplicatedWritesBlock_def preRenameCollection_def emit_def)
  note D = Database_dropCollection_uuidAt [OF d, unfolded u]
  note R = Database_renameCollection_uuidAt [OF r]
  from R [of m] have s3: "uuidAt w3 s \<noteq> None" by simp
  with D [of s] have ne: "s \<noteq> c_ns targetColl" by (auto split: if_splits)
  show ?thesis
    using R [of m] D [of s] D [of m] D [of t] ne
    by (auto simp: uuidAt_frame [OF b] split: if_splits)
qed

lemma lockSourceAndTarget_bindings:
  "bindings (lockSourceAndTarget e s t w) = bindings w"
  by (simp add: lockSourceAndTarget_def bindings_def lockCollection_def emit_def)

lemma lockDb_bindings: "bindings (lockDb d m w) = bindings w"
  by (simp add: bindings_def lockDb_def emit_def)

lemma renameCollectionWithinDB_uuidAt:
  assumes "renameCollectionWithinDB e w s t options = Returns (OK, w')"
  shows "uuidAt w s \<noteq> None \<and> uuidAt w' t = uuidAt w s \<and>
         (\<forall>m. m \<noteq> s \<and> m \<noteq> t \<longrightarrow> uuidAt w' m = uuidAt w m)"
proof -
  let ?w2 = "lockSourceAndTarget e s t (lockDb (nss_db s) MODE_IX w)"
  have u2: "uuidAt ?w2 = uuidAt w"
    by (rule uuidAt_frame) (simp add: lockSourceAndTarget_bindings lockDb_bindings)
  from assms obtain sc where sc: "lookupCollectionByNamespace ?w2 s = Some sc"
    by (auto simp: renameCollectionWithinDB_def Let_def releaseLocks_def
          split: if_splits outcome.splits status.splits option.splits prod.splits)
  show ?thesis
  proof (cases "lookupCollectionByNamespace ?w2 t")
    case None
    with assms sc obtain w'' where
      r: "renameCollectionDirectly e ?w2 (nss_db s) (Some (c_uuid sc)) s t options
            = Returns (OK, w'')" and b: "bindings w' = bindings w''"
      by (auto simp: renameCollectionWithinDB_def Let_def releaseLocks_def bindings_def
          split: if_splits outcome.splits status.splits option.splits prod.splits)
    from renameCollectionDirectly_uuidAt [OF r] show ?thesis
      by (auto simp: uuidAt_frame [OF b] u2)
  next
    case (Some tc)
    with assms sc obtain w'' where
      r: "renameCollectionAndDropTarget e ?w2 (nss_db s) (Some (c_uuid sc)) s t tc options None
            = Returns (OK, w'')" and b: "bindings w' = bindings w''"
      by (auto simp: renameCollectionWithinDB_def Let_def releaseLocks_def bindings_def
          split: if_splits outcome.splits status.splits option.splits prod.splits)
    have tc: "c_ns tc = t" using Some by (rule lookup_c_ns)
    from renameCollectionAndDropTarget_uuidAt [OF r] show ?thesis
      by (auto simp: uuidAt_frame [OF b] u2 tc)
  qed
qed


lemma returnsOK_D: "returnsOK r \<Longrightarrow> \<exists>w'. r = Returns (OK, w')"
  by (auto simp: returnsOK_def split: outcome.splits prod.splits status.splits)

lemma createIndexes_bindings:
  "createIndexesOnEmptyCollection e w u specs = (st, w') \<Longrightarrow> bindings w' = bindings w"
  by (auto simp: createIndexesOnEmptyCollection_def Let_def bindings_def emit_def
        split: status.splits)

lemma absorbCopy_bindings: "bindings (absorbCopy w u wces fps st) = bindings w"
  by (simp add: absorbCopy_def bindings_def)

lemma unlock_bindings: "bindings (unlock l w) = bindings w"
  by (simp add: unlock_def bindings_def)

lemma lockCollection_bindings: "bindings (lockCollection n m w) = bindings w"
  by (simp add: lockCollection_def bindings_def emit_def)

lemma renameBetweenDBs_copy_success:
  assumes "renameBetweenDBs_copy e w s t options sc tmpName tmpColl o1 o2 = Returns (OK, w')"
  shows "\<exists>w7 w8. bindings w7 = bindings w \<and>
           renameCollectionWithinDB e w7 tmpName t options = Returns (OK, w8) \<and>
           dropCollectionForApplyOps e w8 s None = (OK, w')"
proof -
  let ?l = "copyIndexDescriptions (getIndexIterator sc True) []"
  let ?built = "if ?l \<noteq> [] then createIndexesOnEmptyCollection e w (c_uuid tmpColl) ?l
                else (OK, w)"
  obtain bs w1 where built: "?built = (bs, w1)" by (cases ?built)
  then have b1: "bindings w1 = bindings w"
    by (auto split: if_splits dest: createIndexes_bindings)
  from assms built have bs: "bs = OK"
    by (cases bs) (simp_all add: renameBetweenDBs_copy_def Let_def)
  let ?w2 = "if o1 then unlock (DbResource (nss_db t), MODE_X) w1 else w1"
  let ?w3 = "lockDb (nss_db tmpName) MODE_IX ?w2"
  from assms built bs obtain tc where tc: "lookupCollectionByUUID ?w3 (c_uuid tmpColl) = Some tc"
    by (cases "lookupCollectionByUUID ?w3 (c_uuid tmpColl)")
       (simp_all add: renameBetweenDBs_copy_def Let_def)
  let ?w4 = "lockCollection (c_ns tc) MODE_IX ?w3"
  let ?cl = "copyLoop e (c_records sc) (insertWriteConflicts ?w4)
               (writeConflictInRenameCollCopyToTmp ?w4)
               (copyStart (c_records sc) (map snd (c_records tc)))"
  from assms built bs tc obtain wces fps st where cl: "?cl = Returns (OK, wces, fps, st)"
    by (cases ?cl rule: outcome.exhaust)
       (auto simp: renameBetweenDBs_copy_def Let_def split: status.splits)
  let ?w5 = "absorbCopy ?w4 (c_uuid tmpColl) wces fps st"
  let ?w6 = "unlock (DbResource (nss_db tmpName), MODE_IX)
               (unlock (CollectionResource (c_ns tc), MODE_IX) ?w5)"
  let ?w7 = "if o2 then unlock (DbResource (nss_db s), MODE_IX)
                          (unlock (CollectionResource s, MODE_S) ?w6) else ?w6"
  have b7: "bindings ?w7 = bindings w"
    by (simp add: unlock_bindings absorbCopy_bindings lockCollection_bindings lockDb_bindings b1)
  from assms built bs tc cl
  have fin: "(case renameCollectionWithinDB e ?w7 tmpName t options of
                Returns (Error c, w8) \<Rightarrow> Returns (Error c, tmpCollectionDropper e w8 tmpName)
              | Returns (OK, w8) \<Rightarrow> Returns (dropCollectionForApplyOps e w8 s None)
              | other \<Rightarrow> other) = Returns (OK, w')"
    by (simp add: renameBetweenDBs_copy_def Let_def split: if_splits)
  then obtain w8 where "renameCollectionWithinDB e ?w7 tmpName t options = Returns (OK, w8)"
    and "dropCollectionForApplyOps e w8 s None = (OK, w')"
    by (auto split: outcome.splits prod.splits status.splits)
  with b7 show ?thesis by blast
qed

lemma renameBetweenDBs_stage_success:
  assumes "renameBetweenDBs_stage e w s t options sc o1 o2 = Returns (OK, w')"
  shows "\<exists>tmpName w7 w8. uuidAt w tmpName = None \<and>
           (\<forall>n. uuidAt w7 n = (if uuidAt w n = None \<and> n = tmpName then Some (genUUID e)
                               else uuidAt w n)) \<and>
           renameCollectionWithinDB e w7 tmpName t options = Returns (OK, w8) \<and>
           dropCollectionForApplyOps e w8 s None = (OK, w')"
proof -
  let ?w1 = "if getDb w (nss_db t) then w else w\<lparr>databases := databases w @ [nss_db t]\<rparr>"
  have b1: "bindings ?w1 = bindings w" by (simp add: bindings_def)
  from assms obtain tmpName where
    tn: "makeUniqueCollectionNamespace e (nss_db t) ''tmp%%%%%.renameCollection'' = Inr tmpName"
    by (cases "makeUniqueCollectionNamespace e (nss_db t) ''tmp%%%%%.renameCollection''")
       (auto simp: renameBetweenDBs_stage_def Let_def split: if_splits)
  from assms tn obtain tmpColl w2 where
    cc: "Database_createCollection ?w1 tmpName (genUUID e) (c_temp sc) (c_options sc)
           = Returns (tmpColl, w2)"
    and cp: "renameBetweenDBs_copy e w2 s t options sc tmpName tmpColl o1 o2 = Returns (OK, w')"
    by (cases "Database_createCollection ?w1 tmpName (genUUID e) (c_temp sc) (c_options sc)"
          rule: outcome.exhaust)
       (auto simp: renameBetweenDBs_stage_def Let_def split: if_splits)
  from cc have fresh: "lookupCollectionByNamespace ?w1 tmpName = None"
    and b2: "bindings w2 = bindings ?w1 @ [(tmpName, genUUID e)]"
    by (auto simp: Database_createCollection_def Let_def bindings_def emit_def
          split: if_splits)
  from fresh have f0: "uuidAt w tmpName = None"
    by (simp add: lookup_None_bindings uuidAt_bindings b1)
  from renameBetweenDBs_copy_success [OF cp] obtain w7 w8 where
    b7: "bindings w7 = bindings w2"
    and r: "renameCollectionWithinDB e w7 tmpName t options = Returns (OK, w8)"
    and d: "dropCollectionForApplyOps e w8 s None = (OK, w')"
    by blast
  have "uuidAt w7 n = (if uuidAt w n = None \<and> n = tmpName then Some (genUUID e)
                        else uuidAt w n)" for n
    using f0
    by (auto simp: uuidAt_bindings b7 b2 b1 map_add_def split: option.splits)
  with f0 r d show ?thesis by blast
qed

lemma renameBetweenDBs_success:
  assumes "renameBetweenDBs e w s t options = Returns (OK, w')"
  shows "uuidAt w s \<noteq> None \<and> uuidAt w' t = Some (genUUID e) \<and> uuidAt w' s = None"
proof -
  from assms have db: "nss_db s \<noteq> nss_db t"
    by (auto simp: renameBetweenDBs_def split: if_splits)
  then have st: "s \<noteq> t" by auto
  let ?o2 = "\<not> isCollectionLockedForMode w s MODE_S"
  let ?w1 = "if ?o2 then lockCollection s MODE_S (lockDb (nss_db s) MODE_IX w) else w"
  let ?o1 = "\<not> isDbLockedForMode ?w1 (nss_db t) MODE_X"
  let ?w2 = "if ?o1 then lockDb (nss_db t) MODE_X ?w1 else ?w1"
  have b2: "bindings ?w2 = bindings w"
    by (simp add: lockDb_bindings lockCollection_bindings)
  have u2: "uuidAt ?w2 = uuidAt w" by (rule uuidAt_frame [OF b2])
  from assms db st obtain sc w'' where
    sc: "lookupCollectionByNamespace ?w2 s = Some sc"
    and sg: "renameBetweenDBs_stage e ?w2 s t options sc ?o1 ?o2 = Returns (OK, w'')"
    and bw: "bindings w' = bindings w''"
    by (auto simp: renameBetweenDBs_def Let_def releaseLocks_def bindings_def
          split: if_splits option.splits outcome.splits prod.splits)
  from sc have "uuidAt ?w2 s = Some (c_uuid sc)" by (simp add: uuidAt_def)
  then have src: "uuidAt w s \<noteq> None" by (simp add: u2)
  from renameBetweenDBs_stage_success [OF sg, unfolded u2] obtain tmpName w7 w8 where
    f0: "uuidAt w tmpName = None"
    and u7: "\<And>n. uuidAt w7 n = (if uuidAt w n = None \<and> n = tmpName then Some (genUUID e)
                                  else uuidAt w n)"
    and r: "renameCollectionWithinDB e w7 tmpName t options = Returns (OK, w8)"
    and d: "dropCollectionForApplyOps e w8 s None = (OK, w'')"
    by blast
  from src f0 have ns: "s \<noteq> tmpName" by auto
  from renameCollectionWithinDB_uuidAt [OF r]
  have t8: "uuidAt w8 t = Some (genUUID e)"
    by (simp add: u7 f0)
  from d have d': "Database_dropCollection e w8 s None = (OK, w'')"
    by (auto simp: dropCollectionForApplyOps_def split: if_splits)
  from Database_dropCollection_uuidAt [OF d', of t] Database_dropCollection_uuidAt [OF d', of s]
  have "uuidAt w'' t = Some (genUUID e)" "uuidAt w'' s = None"
    using st t8 by auto
  with src show ?thesis by (simp add: uuidAt_frame [OF bw])
qed

lemma uuidAt_in_catalog: "uuidAt w n = Some u \<Longrightarrow> u \<in> c_uuid ` set (catalog w)"
  by (auto simp: uuidAt_def lookupCollectionByNamespace_def find_Some_iff)


text \<open>
  C1. When renameCollection with source and target in one database returns success, the
  source was bound to a collection and the collection now bound to the target has the
  UUID the source collection had. When renameBetweenDBs returns success, the source was
  bound to a collection, the collection now bound to the target has the UUID that
  UUID::gen produced for the staging collection, no collection is bound to the source
  any more, and, the generated UUID being fresh (no collection of the catalog had it),
  the target's UUID differs from the one the source collection had.
\<close>

theorem rename_uuid:
  "(nss_db source = nss_db target \<and>
    renameCollection e w source target options = Returns (OK, w') \<longrightarrow>
      uuidAt w source \<noteq> None \<and> uuidAt w' target = uuidAt w source) \<and>
   (genUUID e \<notin> c_uuid ` set (catalog w) \<and>
    renameBetweenDBs e w source target options = Returns (OK, w') \<longrightarrow>
      uuidAt w source \<noteq> None \<and> uuidAt w' target = Some (genUUID e) \<and>
      uuidAt w' target \<noteq> uuidAt w source \<and> uuidAt w' source = None)"
proof -
  have same: "uuidAt w source \<noteq> None \<and> uuidAt w' target = uuidAt w source"
    if "nss_db source = nss_db target"
      and "renameCollection e w source target options = Returns (OK, w')"
  proof -
    from that have "renameCollectionWithinDB e w source target options = Returns (OK, w')"
      by (auto simp: renameCollection_def split: if_splits)
    from renameCollectionWithinDB_uuidAt [OF this] show ?thesis by simp
  qed
  have cross: "uuidAt w source \<noteq> None \<and> uuidAt w' target = Some (genUUID e) \<and>
        uuidAt w' target \<noteq> uuidAt w source \<and> uuidAt w' source = None"
    if "genUUID e \<notin> c_uuid ` set (catalog w)"
      and r: "renameBetweenDBs e w source target options = Returns (OK, w')"
    using renameBetweenDBs_success [OF r] that(1) uuidAt_in_catalog [of w source "genUUID e"]
    by auto
  from same cross show ?thesis by blast
qed


theorem rename_uuid_witness:
  "nss_db (NamespaceString ''db1'' ''x'') = nss_db (NamespaceString ''db1'' ''zz'') \<and>
   (\<exists>w'. renameCollection sampleEnv sampleWorld (NamespaceString ''db1'' ''x'')
            (NamespaceString ''db1'' ''zz'') dropTargetOptions = Returns (OK, w') \<and>
          uuidAt w' (NamespaceString ''db1'' ''zz'') = Some 1) \<and>
   genUUID sampleEnv \<notin> c_uuid ` set (catalog sampleWorld) \<and>
   (\<exists>w'. renameBetweenDBs sampleEnv sampleWorld (NamespaceString ''db1'' ''x'')
            (NamespaceString ''db2'' ''x'') dropTargetOptions = Returns (OK, w') \<and>
          uuidAt w' (NamespaceString ''db2'' ''x'') = Some 99 \<and>
          uuidAt w' (NamespaceString ''db1'' ''x'') = None)"
proof -
  let ?x = "NamespaceString ''db1'' ''x''" and ?zz = "NamespaceString ''db1'' ''zz''"
  let ?x2 = "NamespaceString ''db2'' ''x''"
  have "returnsOK (renameCollection sampleEnv sampleWorld ?x ?zz dropTargetOptions)"
    by code_simp
  then obtain w1 where
    r1: "renameCollection sampleEnv sampleWorld ?x ?zz dropTargetOptions = Returns (OK, w1)"
    by (auto dest: returnsOK_D)
  have "returnsOK (renameBetweenDBs sampleEnv sampleWorld ?x ?x2 dropTargetOptions)"
    by code_simp
  then obtain w2 where
    r2: "renameBetweenDBs sampleEnv sampleWorld ?x ?x2 dropTargetOptions = Returns (OK, w2)"
    by (auto dest: returnsOK_D)
  have fresh: "genUUID sampleEnv \<notin> c_uuid ` set (catalog sampleWorld)"
    by (simp add: sample_defs)
  have ux: "uuidAt sampleWorld ?x = Some 1"
    by (simp add: uuidAt_def lookupCollectionByNamespace_def sample_defs)
  have g: "genUUID sampleEnv = 99" by (simp add: sample_defs)
  from rename_uuid [where source = ?x and target = ?zz and e = sampleEnv and w = sampleWorld
                      and options = dropTargetOptions and w' = w1] r1 ux
  have a: "uuidAt w1 ?zz = Some 1" by simp
  from rename_uuid [where source = ?x and target = ?x2 and e = sampleEnv and w = sampleWorld
                      and options = dropTargetOptions and w' = w2] r2 fresh g
  have b: "uuidAt w2 ?x2 = Some 99 \<and> uuidAt w2 ?x = None" by simp
  from r1 r2 a b fresh show ?thesis by auto
qed

subsection \<open>Write conflicts in the bulk copy\<close>

lemma position_cpEmit: "position (cpEmit ev st) = position st"
  by (simp add: position_def cpEmit_def)

lemma positioned_position:
  "position st = position st2 \<Longrightarrow> positioned recs st = positioned recs st2"
  by (simp add: position_def positioned_def)

lemma position_cursorNext:
  "position st = position st2 \<Longrightarrow> position (cursorNext st) = position (cursorNext st2)"
  by (auto simp: position_def cursorNext_def cpEmit_def split: list.splits)

lemma positioned_cursorNext:
  assumes "positioned recs st" shows "positioned recs (cursorNext st)"
proof (cases "cp_cursor st")
  case Nil
  then show ?thesis by (simp add: positioned_def cursorNext_def cpEmit_def)
next
  case (Cons q qs)
  show ?thesis
  proof (cases "cp_record st")
    case None
    with assms Cons show ?thesis by (simp add: positioned_def)
  next
    case (Some r)
    with assms obtain pre where "recs = pre @ r # q # qs"
      using Cons by (auto simp: positioned_def)
    then have "recs = (pre @ [r]) @ q # qs" by simp
    then have "\<exists>pre. recs = pre @ q # qs" by blast
    then show ?thesis
      using Cons by (simp add: positioned_def cursorNext_def cpEmit_def)
  qed
qed

lemma dropWhile_distinct_key:
  assumes "distinct (map fst (pre @ r # rest))"
  shows "dropWhile (\<lambda>x. fst x \<noteq> fst r) (pre @ r # rest) = r # rest"
  using assms by (induction pre) (auto simp: image_iff)

lemma split_unique:
  assumes "distinct (map fst (pre @ r # rest))" and "pre @ r # rest = pre2 @ q # rest2"
    and "fst q = fst r"
  shows "q = r \<and> rest2 = rest"
proof -
  have a: "dropWhile (\<lambda>x. fst x \<noteq> fst r) (pre @ r # rest) = r # rest"
    using assms(1) by (rule dropWhile_distinct_key)
  have e1: "dropWhile (\<lambda>x. fst x \<noteq> fst r) (pre2 @ q # rest2) = r # rest"
    using a unfolding assms(2) .
  have "distinct (map fst (pre2 @ q # rest2))"
    using assms(1) unfolding assms(2) .
  then have "dropWhile (\<lambda>x. fst x \<noteq> fst q) (pre2 @ q # rest2) = q # rest2"
    by (rule dropWhile_distinct_key)
  then have e2: "dropWhile (\<lambda>x. fst x \<noteq> fst r) (pre2 @ q # rest2) = q # rest2"
    unfolding assms(3) .
  from e1 e2 have "r # rest = q # rest2" by (rule trans [OF sym])
  then show ?thesis by simp
qed

lemma positioned_seekExact: "positioned recs (seekExact recs i st)"
proof (cases "dropWhile (\<lambda>r. fst r \<noteq> i) recs")
  case Nil
  then show ?thesis
    by (simp add: seekExact_def positioned_def cpEmit_def del: dropWhile_eq_Nil_conv)
next
  case (Cons q qs)
  have "recs = takeWhile (\<lambda>r. fst r \<noteq> i) recs @ dropWhile (\<lambda>r. fst r \<noteq> i) recs" by simp
  with Cons have "recs = takeWhile (\<lambda>r. fst r \<noteq> i) recs @ q # qs" by simp
  then have "\<exists>pre. recs = pre @ q # qs" by blast
  then show ?thesis using Cons by (simp add: seekExact_def positioned_def cpEmit_def)
qed


lemma resetCursor_position:
  assumes d: "distinct (map fst recs)" and s: "recs = pre @ r # rest"
    and p: "positioned recs st"
  shows "position (resetCursor recs (fst r) st) = (Some r, rest, cp_tmp st)"
proof -
  have "dropWhile (\<lambda>x. fst x \<noteq> fst r) recs = r # rest"
    using dropWhile_distinct_key [of pre r rest] d unfolding s .
  then have seek: "position (seekExact recs (fst r) st) = (Some r, rest, cp_tmp st)"
    by (simp add: seekExact_def position_def cpEmit_def)
  show ?thesis
  proof (cases "cp_record st")
    case None
    then show ?thesis by (simp add: seek resetCursor_def)
  next
    case (Some q)
    show ?thesis
    proof (cases "fst r = fst q")
      case False
      with Some show ?thesis by (simp add: seek resetCursor_def)
    next
      case True
      from p Some obtain pre2 where p2: "recs = pre2 @ q # cp_cursor st"
        by (auto simp: positioned_def)
      have "distinct (map fst (pre @ r # rest))" using d unfolding s .
      moreover have "pre @ r # rest = pre2 @ q # cp_cursor st" using p2 unfolding s .
      ultimately have "q = r \<and> cp_cursor st = rest"
        using True by (intro split_unique [of pre r rest pre2 q "cp_cursor st"]) simp_all
      with Some show ?thesis by (simp add: position_def resetCursor_def)
    qed
  qed
qed

lemma positioned_resetCursor:
  "positioned recs st \<Longrightarrow> positioned recs (resetCursor recs b st)"
  by (auto simp: resetCursor_def positioned_seekExact split: option.splits)

lemma insertLoop_position:
  "position st = position st2 \<Longrightarrow> fst (insertLoop e n wces st) \<noteq> Conflicted \<Longrightarrow>
   fst (insertLoop e n wces2 st2) \<noteq> Conflicted \<Longrightarrow>
   fst (insertLoop e n wces2 st2) = fst (insertLoop e n wces st) \<and>
   position (snd (snd (insertLoop e n wces2 st2))) =
   position (snd (snd (insertLoop e n wces st)))"
proof (induction n arbitrary: wces wces2 st st2)
  case 0
  then show ?case by simp
next
  case (Suc n)
  from Suc.prems(1) have r: "cp_record st2 = cp_record st" and t: "cp_tmp st2 = cp_tmp st"
    by (simp_all add: position_def)
  show ?case
  proof (cases "cp_record st")
    case None
    with r Suc.prems show ?thesis by simp
  next
    case (Some q)
    from Suc.prems(2) Some have c1: "\<not> (wces \<noteq> [] \<and> hd wces)" by auto
    from Suc.prems(3) Some r have c2: "\<not> (wces2 \<noteq> [] \<and> hd wces2)" by auto
    show ?thesis
    proof (cases "insertDocumentStatus e (snd q)")
      case (Error c)
      with Some r Suc.prems(1) c1 c2 show ?thesis by (simp add: position_cpEmit)
    next
      case OK
      let ?a = "cursorNext ((cpEmit (InsertDocument (snd q)) st)\<lparr>cp_tmp := cp_tmp st @ [snd q]\<rparr>)"
      let ?b = "cursorNext ((cpEmit (InsertDocument (snd q)) st2)\<lparr>cp_tmp := cp_tmp st2 @ [snd q]\<rparr>)"
      have ab: "position ?a = position ?b"
        using Suc.prems(1) by (intro position_cursorNext) (simp add: position_def cpEmit_def)
      have ra: "insertLoop e (Suc n) wces st = insertLoop e n (tl wces) ?a"
        using Some OK c1 by auto
      have rb: "insertLoop e (Suc n) wces2 st2 = insertLoop e n (tl wces2) ?b"
        using Some r OK c2 by auto
      from Suc.IH [OF ab, of "tl wces" "tl wces2"] Suc.prems(2,3)
      show ?thesis unfolding ra rb by simp
    qed
  qed
qed

lemma positioned_insertLoop:
  "positioned recs st \<Longrightarrow> positioned recs (snd (snd (insertLoop e n wces st)))"
proof (induction n arbitrary: wces st)
  case 0
  then show ?case by simp
next
  case (Suc n)
  show ?case
  proof (cases "cp_record st")
    case None
    with Suc.prems show ?thesis by simp
  next
    case (Some q)
    let ?a = "(cpEmit (InsertDocument (snd q)) st)\<lparr>cp_tmp := cp_tmp st @ [snd q]\<rparr>"
    have "positioned recs ?a" using Suc.prems by (simp add: positioned_def cpEmit_def)
    then have "positioned recs (cursorNext ?a)" by (rule positioned_cursorNext)
    from Suc.IH [OF this, of "tl wces"] Suc.prems show ?thesis
      using Some by (auto simp: positioned_def cpEmit_def split: status.splits)
  qed
qed

lemma insertLoop_no_conflict: "fst (insertLoop e n [] st) \<noteq> Conflicted"
  by (induction n arbitrary: st) (auto split: option.splits status.splits)

lemma tl_neq: "fps \<noteq> [] \<Longrightarrow> tl fps \<noteq> fps"
  by (cases fps) auto

text \<open>How a run of the batch body ends, read off the inserts it made.\<close>

lemma batchBody_ends:
  "insertLoop e (nat (internalInsertMaxBatchSize e)) wces (resetCursor recs b st)
     = (ix, wces', st2) \<Longrightarrow>
   batchBody e recs b wces fps st =
     (case ix of
        Inserted \<Rightarrow>
          if fps \<noteq> [] \<and> hd fps
          then (WriteConflict, wces', tl fps,
                (cpEmit WuowAbort (cpEmit CursorRestore (cpEmit CursorSave st2)))
                  \<lparr>cp_tmp := cp_tmp st\<rparr>)
          else (Committed, wces', tl fps,
                cpEmit CursorRestore (cpEmit WuowCommit (cpEmit CursorSave st2)))
      | Rejected c \<Rightarrow> (Failed c, wces', fps, (cpEmit WuowAbort st2)\<lparr>cp_tmp := cp_tmp st\<rparr>)
      | Conflicted \<Rightarrow>
          (WriteConflict, wces', fps, (cpEmit WuowAbort st2)\<lparr>cp_tmp := cp_tmp st\<rparr>))"
  by (cases ix) (simp_all add: batchBody_def Let_def)

lemma positioned_batchBody:
  assumes "positioned recs st"
  shows "positioned recs (snd (snd (snd (batchBody e recs b wces fps st))))"
proof -
  let ?il = "insertLoop e (nat (internalInsertMaxBatchSize e)) wces (resetCursor recs b st)"
  obtain ix l s2 where il: "?il = (ix, l, s2)" by (cases ?il)
  from positioned_insertLoop [OF positioned_resetCursor [OF assms],
         where e = e and n = "nat (internalInsertMaxBatchSize e)" and wces = wces and b1 = b] il
  have "positioned recs s2" by simp
  then show ?thesis
    using il by (cases ix) (simp_all add: batchBody_ends [OF il] positioned_def cpEmit_def)
qed

lemma batchBody_tmp:
  "batchBody e recs b wces fps st = (ex, wces', fps', st') \<Longrightarrow> ex \<noteq> Committed \<Longrightarrow>
   cp_tmp st' = cp_tmp st"
proof -
  assume a: "batchBody e recs b wces fps st = (ex, wces', fps', st')" and n: "ex \<noteq> Committed"
  let ?il = "insertLoop e (nat (internalInsertMaxBatchSize e)) wces (resetCursor recs b st)"
  obtain ix l s2 where il: "?il = (ix, l, s2)" by (cases ?il)
  show ?thesis
    using a n by (cases ix) (auto simp: batchBody_ends [OF il] split: if_splits)
qed

lemma batchBody_no_conflict: "fst (batchBody e recs b [] [] st) \<noteq> WriteConflict"
proof -
  let ?il = "insertLoop e (nat (internalInsertMaxBatchSize e)) [] (resetCursor recs b st)"
  obtain ix l s2 where il: "?il = (ix, l, s2)" by (cases ?il)
  with insertLoop_no_conflict [of e "nat (internalInsertMaxBatchSize e)" "resetCursor recs b st"]
  have "ix \<noteq> Conflicted" by simp
  then show ?thesis by (cases ix) (simp_all add: batchBody_ends [OF il])
qed

lemma batchBody_position:
  assumes d: "distinct (map fst recs)" and s: "recs = pre @ r # rest"
    and p: "positioned recs st" and p2: "positioned recs st2"
    and t: "cp_tmp st = cp_tmp st2"
    and n: "fst (batchBody e recs (fst r) wces fps st) \<noteq> WriteConflict"
  shows "fst (batchBody e recs (fst r) [] [] st2) = fst (batchBody e recs (fst r) wces fps st) \<and>
         position (snd (snd (snd (batchBody e recs (fst r) [] [] st2)))) =
         position (snd (snd (snd (batchBody e recs (fst r) wces fps st))))"
proof -
  let ?N = "nat (internalInsertMaxBatchSize e)"
  let ?s1 = "resetCursor recs (fst r) st" and ?s2 = "resetCursor recs (fst r) st2"
  obtain ix l a where a: "insertLoop e ?N wces ?s1 = (ix, l, a)"
    by (cases "insertLoop e ?N wces ?s1")
  obtain ix2 l2 b where b: "insertLoop e ?N [] ?s2 = (ix2, l2, b)"
    by (cases "insertLoop e ?N [] ?s2")
  have pos: "position ?s1 = position ?s2"
    using resetCursor_position [OF d s p] resetCursor_position [OF d s p2] t by simp
  have c1: "ix \<noteq> Conflicted"
    using n a by (cases ix) (simp_all add: batchBody_ends [OF a])
  have c2: "ix2 \<noteq> Conflicted"
    using insertLoop_no_conflict [of e ?N ?s2] b by simp
  from insertLoop_position [OF pos, of e ?N wces "[]"] a b c1 c2
  have ix: "ix2 = ix" and ab: "position b = position a" by simp_all
  from ab have f: "cp_record a = cp_record b" "cp_cursor a = cp_cursor b" "cp_tmp a = cp_tmp b"
    by (simp_all add: position_def)
  show ?thesis
  proof (cases ix)
    case Inserted
    with n a have "\<not> (fps \<noteq> [] \<and> hd fps)"
      by (auto simp: batchBody_ends [OF a])
    with Inserted ix f show ?thesis
      by (simp add: batchBody_ends [OF a] batchBody_ends [OF b] position_def cpEmit_def)
  next
    case (Rejected c)
    with ix f t show ?thesis
      by (simp add: batchBody_ends [OF a] batchBody_ends [OF b] position_def cpEmit_def)
  next
    case Conflicted
    with c1 show ?thesis by simp
  qed
qed

lemma writeConflictRetryBatch_position:
  "distinct (map fst recs) \<Longrightarrow> recs = pre @ r # rest \<Longrightarrow> positioned recs st \<Longrightarrow>
   positioned recs st2 \<Longrightarrow> cp_tmp st = cp_tmp st2 \<Longrightarrow> b = fst r \<Longrightarrow>
   fst (writeConflictRetryBatch e recs b wces fps st) =
     (case fst (batchBody e recs b [] [] st2) of Failed c \<Rightarrow> Error c | _ \<Rightarrow> OK) \<and>
   position (snd (snd (snd (writeConflictRetryBatch e recs b wces fps st)))) =
     position (snd (snd (snd (batchBody e recs b [] [] st2)))) \<and>
   positioned recs (snd (snd (snd (writeConflictRetryBatch e recs b wces fps st))))"
proof (induction e recs b wces fps st rule: writeConflictRetryBatch.induct)
  case (1 e recs b wces fps st)
  obtain ex l f st' where bb: "batchBody e recs b wces fps st = (ex, l, f, st')"
    by (cases "batchBody e recs b wces fps st")
  have p': "positioned recs st'"
    using positioned_batchBody [OF "1.prems"(3), of e b wces fps] bb by simp
  have b: "b = fst r" by (rule "1.prems"(6))
  show ?case
  proof (cases "ex = WriteConflict")
    case True
    have t: "cp_tmp st' = cp_tmp st2"
      using batchBody_tmp [OF bb] True "1.prems"(5) by simp
    have u: "writeConflictRetryBatch e recs b wces fps st =
             writeConflictRetryBatch e recs b l f st'"
      using bb True by (subst writeConflictRetryBatch.simps) simp
    from "1.IH" [OF bb [symmetric] True refl refl "1.prems"(1,2) p' "1.prems"(4) t "1.prems"(6)]
    show ?thesis by (simp add: u)
  next
    case False
    with bb have n: "fst (batchBody e recs (fst r) wces fps st) \<noteq> WriteConflict"
      by (simp add: b)
    from batchBody_position [OF "1.prems"(1,2,3,4,5) n] bb b
    have e1: "fst (batchBody e recs b [] [] st2) = ex"
      and e2: "position (snd (snd (snd (batchBody e recs b [] [] st2)))) = position st'"
      by simp_all
    have "writeConflictRetryBatch e recs b wces fps st =
          (case ex of Failed c \<Rightarrow> Error c | _ \<Rightarrow> OK, l, f, st')"
      using bb False by (subst writeConflictRetryBatch.simps) (cases ex; simp)
    with e1 e2 p' show ?thesis by simp
  qed
qed

lemma copyLoop_position:
  "distinct (map fst recs) \<Longrightarrow> positioned recs st \<Longrightarrow> position st = position st2 \<Longrightarrow>
   copied (copyLoop e recs wces fps st) = copied (copyLoop e recs wces2 fps2 st2)"
proof (induction e recs wces fps st arbitrary: wces2 fps2 st2 rule: copyLoop.induct)
  case (1 e recs wces fps st)
  from "1.prems"(3) have rec2: "cp_record st2 = cp_record st" and tmp2: "cp_tmp st2 = cp_tmp st"
    by (simp_all add: position_def)
  note unf = copyLoop.simps [of e recs wces fps st] copyLoop.simps [of e recs wces2 fps2 st2]
  show ?case
  proof (cases "cp_record st")
    case None
    then show ?thesis using rec2 tmp2 by (simp add: unf copied_def)
  next
    case (Some r)
    show ?thesis
    proof (cases "killPending e \<or> internalInsertMaxBatchSize e \<le> 0")
      case True
      then show ?thesis using Some rec2 by (auto simp: unf copied_def)
    next
      case False
      let ?s = "cpEmit CheckForInterrupt st" and ?s2 = "cpEmit CheckForInterrupt st2"
      let ?A = "writeConflictRetryBatch e recs (fst r) wces fps ?s"
      let ?B = "writeConflictRetryBatch e recs (fst r) wces2 fps2 ?s2"
      from "1.prems"(2) Some obtain pre where s: "recs = pre @ r # cp_cursor st"
        by (auto simp: positioned_def)
      have ps: "positioned recs ?s"
        using "1.prems"(2) positioned_position [of ?s st recs] by (simp add: position_cpEmit)
      have ps2: "positioned recs ?s2"
        using "1.prems"(2,3) positioned_position [of ?s2 st recs] by (simp add: position_cpEmit)
      have t: "cp_tmp ?s = cp_tmp ?s2" using tmp2 by (simp add: cpEmit_def)
      note A = writeConflictRetryBatch_position [OF "1.prems"(1) s ps ps2 t refl, of e wces fps]
      note B = writeConflictRetryBatch_position [OF "1.prems"(1) s ps2 ps2 refl refl, of e wces2 fps2]
      obtain sa wa fa sta where a: "?A = (sa, wa, fa, sta)" by (cases ?A)
      obtain sb wb fb stb where b: "?B = (sb, wb, fb, stb)" by (cases ?B)
      from A B a b have eq: "sa = sb" "position sta = position stb"
        and pa: "positioned recs sta" by simp_all
      show ?thesis
      proof (cases sa)
        case (Error c)
        then show ?thesis
          using Some rec2 False a b eq by (simp add: unf copied_def position_def)
      next
        case OK
        have "copied (copyLoop e recs wa fa sta) = copied (copyLoop e recs wb fb stb)"
          using False
          by (intro "1.IH" [OF Some _ _ a [symmetric] OK refl refl "1.prems"(1) pa eq(2)])
             simp_all
        then show ?thesis using Some rec2 False a b eq OK by (simp add: unf)
      qed
    qed
  qed
qed

lemma copyLoop_returns:
  "0 < internalInsertMaxBatchSize e \<Longrightarrow> \<not> killPending e \<Longrightarrow>
   \<exists>s w f st'. copyLoop e recs wces fps st = Returns (s, w, f, st')"
proof (induction e recs wces fps st rule: copyLoop.induct)
  case (1 e recs wces fps st)
  note unf = copyLoop.simps [of e recs wces fps st]
  show ?case
  proof (cases "cp_record st")
    case None
    then show ?thesis by (simp add: unf)
  next
    case (Some r)
    let ?A = "writeConflictRetryBatch e recs (fst r) wces fps (cpEmit CheckForInterrupt st)"
    obtain sa wa fa sta where a: "?A = (sa, wa, fa, sta)" by (cases ?A)
    show ?thesis
    proof (cases sa)
      case (Error c)
      then show ?thesis using Some a "1.prems" by (simp add: unf)
    next
      case OK
      have "\<exists>s w f st'. copyLoop e recs wa fa sta = Returns (s, w, f, st')"
        using "1.prems"
        by (intro "1.IH" [OF Some _ _ a [symmetric] OK refl refl]) simp_all
      then show ?thesis using Some a "1.prems" OK by (simp add: unf)
    qed
  qed
qed

lemma positioned_copyStart: "positioned recs (copyStart recs docs)"
  by (cases recs) (auto simp: copyStart_def cursorNext_def cpEmit_def positioned_def)

text \<open>The events of a run of the batch body.\<close>

lemma insert_events:
  "list_all isInsertEvent evs \<Longrightarrow> filter isUnitEvent evs = [] \<and> filter isSeekEvent evs = []"
  by (induction evs) (auto elim: isInsertEvent.elims)

lemma insertLoop_trace:
  "\<exists>evs. cp_trace (snd (snd (insertLoop e n wces s))) = cp_trace s @ evs \<and>
         list_all isInsertEvent evs"
proof (induction n arbitrary: wces s)
  case 0
  show ?case by simp
next
  case (Suc n)
  show ?case
  proof (cases "cp_record s")
    case None
    then show ?thesis by simp
  next
    case (Some q)
    let ?a = "cursorNext ((cpEmit (InsertDocument (snd q)) s)\<lparr>cp_tmp := cp_tmp s @ [snd q]\<rparr>)"
    have a: "cp_trace ?a = cp_trace s @ [InsertDocument (snd q), CursorNext]"
      by (simp add: cursorNext_def cpEmit_def split: list.splits)
    from Suc.IH [of "tl wces" ?a] obtain evs where
      "cp_trace (snd (snd (insertLoop e n (tl wces) ?a))) = cp_trace ?a @ evs"
      "list_all isInsertEvent evs"
      by blast
    then have rec: "cp_trace (snd (snd (insertLoop e n (tl wces) ?a))) =
               cp_trace s @ ([InsertDocument (snd q), CursorNext] @ evs) \<and>
               list_all isInsertEvent ([InsertDocument (snd q), CursorNext] @ evs)"
      by (simp add: a)
    have one: "cp_trace (cpEmit (InsertDocument (snd q)) s) = cp_trace s @ [InsertDocument (snd q)] \<and>
               list_all isInsertEvent [InsertDocument (snd q)]"
      by (simp add: cpEmit_def)
    show ?thesis
    proof (cases "wces \<noteq> [] \<and> hd wces")
      case True
      with Some one show ?thesis by (simp del: append.simps)
    next
      case False
      show ?thesis
      proof (cases "insertDocumentStatus e (snd q)")
        case (Error c)
        with Some False one show ?thesis by (auto simp del: append.simps)
      next
        case OK
        with Some False rec show ?thesis by (auto simp del: append.simps)
      qed
    qed
  qed
qed

lemma seekExact_trace: "cp_trace (seekExact recs b st) = cp_trace st @ [SeekExact b]"
  by (simp add: seekExact_def cpEmit_def split: list.splits)

lemma resetCursor_cases:
  "resetCursor recs b st = st \<or> resetCursor recs b st = seekExact recs b st"
  by (simp add: resetCursor_def split: option.splits)

lemma resetCursor_trace:
  "\<exists>sk. cp_trace (resetCursor recs b st) = cp_trace st @ sk \<and> filter isUnitEvent sk = []"
proof -
  from resetCursor_cases [of recs b st] show ?thesis
  proof
    assume "resetCursor recs b st = st"
    then have "cp_trace (resetCursor recs b st) = cp_trace st @ [] \<and>
               filter isUnitEvent [] = []" by simp
    then show ?thesis by blast
  next
    assume "resetCursor recs b st = seekExact recs b st"
    then have "cp_trace (resetCursor recs b st) = cp_trace st @ [SeekExact b] \<and>
               filter isUnitEvent [SeekExact b] = []" by (simp add: seekExact_trace)
    then show ?thesis by blast
  qed
qed

lemma batchBody_trace:
  assumes "batchBody e recs b wces fps st = (ex, wces', fps', st')"
  shows "\<exists>evs. list_all isInsertEvent evs \<and>
           cp_trace st' = cp_trace (resetCursor recs b st) @ evs @
             (case ex of
                Committed \<Rightarrow> [CursorSave, WuowCommit, CursorRestore]
              | WriteConflict \<Rightarrow>
                  if fps' = fps then [WuowAbort] else [CursorSave, CursorRestore, WuowAbort]
              | Failed c \<Rightarrow> [WuowAbort])"
proof -
  let ?s1 = "resetCursor recs b st"
  let ?il = "insertLoop e (nat (internalInsertMaxBatchSize e)) wces ?s1"
  obtain ix l s2 where il: "?il = (ix, l, s2)" by (cases ?il)
  from insertLoop_trace [of e "nat (internalInsertMaxBatchSize e)" wces ?s1] il
  obtain evs where evs: "cp_trace s2 = cp_trace ?s1 @ evs" "list_all isInsertEvent evs"
    by auto
  have "cp_trace st' = cp_trace ?s1 @ evs @
             (case ex of
                Committed \<Rightarrow> [CursorSave, WuowCommit, CursorRestore]
              | WriteConflict \<Rightarrow>
                  if fps' = fps then [WuowAbort] else [CursorSave, CursorRestore, WuowAbort]
              | Failed c \<Rightarrow> [WuowAbort])"
  proof (cases ix)
    case Inserted
    show ?thesis
    proof (cases "fps \<noteq> [] \<and> hd fps")
      case True
      then have "tl fps \<noteq> fps" by (simp add: tl_neq)
      with assms True Inserted evs(1) show ?thesis
        by (auto simp: batchBody_ends [OF il] cpEmit_def)
    next
      case False
      with assms Inserted evs(1) show ?thesis
        by (auto simp: batchBody_ends [OF il] cpEmit_def)
    qed
  next
    case (Rejected c)
    with assms evs(1) show ?thesis by (auto simp: batchBody_ends [OF il] cpEmit_def)
  next
    case Conflicted
    with assms evs(1) show ?thesis by (auto simp: batchBody_ends [OF il] cpEmit_def)
  qed
  with evs(2) show ?thesis by blast
qed

lemma batchBody_unit_events:
  assumes "batchBody e recs b wces fps st = (ex, wces', fps', st')"
  shows "filter isUnitEvent (batchEvents st st') =
           (case ex of
              Committed \<Rightarrow> [CursorSave, WuowCommit, CursorRestore]
            | WriteConflict \<Rightarrow>
                if fps' = fps then [WuowAbort] else [CursorSave, CursorRestore, WuowAbort]
            | Failed c \<Rightarrow> [WuowAbort])"
proof -
  from batchBody_trace [OF assms] obtain evs where
    e1: "list_all isInsertEvent evs"
    and t1: "cp_trace st' = cp_trace (resetCursor recs b st) @ evs @
             (case ex of
                Committed \<Rightarrow> [CursorSave, WuowCommit, CursorRestore]
              | WriteConflict \<Rightarrow>
                  if fps' = fps then [WuowAbort] else [CursorSave, CursorRestore, WuowAbort]
              | Failed c \<Rightarrow> [WuowAbort])"
    by blast
  from resetCursor_trace [of recs b st] obtain sk where
    sk: "cp_trace (resetCursor recs b st) = cp_trace st @ sk"
    and sk0: "filter isUnitEvent sk = []"
    by blast
  from insert_events [OF e1] have e0: "filter isUnitEvent evs = []" by simp
  show ?thesis
    by (cases ex) (simp_all add: batchEvents_def t1 sk sk0 e0)
qed

lemma insertLoop_record:
  "cp_record (snd (snd (insertLoop e n wces s))) = Some q \<Longrightarrow>
   cp_record s = Some q \<or> q \<in> set (cp_cursor s)"
proof (induction n arbitrary: wces s)
  case 0
  then show ?case by simp
next
  case (Suc n)
  show ?case
  proof (cases "cp_record s")
    case None
    with Suc.prems show ?thesis by simp
  next
    case (Some r0)
    let ?a = "cursorNext ((cpEmit (InsertDocument (snd r0)) s)\<lparr>cp_tmp := cp_tmp s @ [snd r0]\<rparr>)"
    show ?thesis
    proof (cases "(wces \<noteq> [] \<and> hd wces) \<or> insertDocumentStatus e (snd r0) \<noteq> OK")
      case True
      with Some Suc.prems show ?thesis
        by (cases "insertDocumentStatus e (snd r0)") (auto simp: cpEmit_def split: if_splits)
    next
      case False
      with Suc.prems Some
      have "cp_record (snd (snd (insertLoop e n (tl wces) ?a))) = Some q" by auto
      from Suc.IH [OF this] have "cp_record ?a = Some q \<or> q \<in> set (cp_cursor ?a)" .
      then show ?thesis
        by (auto simp: cursorNext_def cpEmit_def split: list.splits)
    qed
  qed
qed

text \<open>Where the cursor stands when a write conflict has ended a run of a batch.\<close>

lemma conflict_cursor:
  assumes d: "distinct (map fst recs)" and s: "recs = pre @ r # rest"
    and b: "0 < internalInsertMaxBatchSize e"
    and p: "positioned recs st"
    and c: "batchBody e recs (fst r) wces fps st = (WriteConflict, wces', fps', st')"
  shows "if wces \<noteq> [] \<and> hd wces
         then cp_record st' = Some r \<and> resetCursor recs (fst r) st' = st'
         else resetCursor recs (fst r) st' = seekExact recs (fst r) st'"
proof -
  obtain n where n: "nat (internalInsertMaxBatchSize e) = Suc n"
    using b by (cases "nat (internalInsertMaxBatchSize e)") auto
  let ?s1 = "resetCursor recs (fst r) st"
  from resetCursor_position [OF d s p]
  have st: "cp_record ?s1 = Some r" "cp_cursor ?s1 = rest"
    by (simp_all add: position_def)
  obtain ix l s2 where il: "insertLoop e (Suc n) wces ?s1 = (ix, l, s2)"
    by (cases "insertLoop e (Suc n) wces ?s1")
  note ends = batchBody_ends [of e wces recs "fst r" st, unfolded n, OF il]
  from c have r2: "cp_record st' = cp_record s2" and nr: "\<forall>c. ix \<noteq> Rejected c"
    by (cases ix; auto simp: ends cpEmit_def split: if_splits)+
  show ?thesis
  proof (cases "wces \<noteq> [] \<and> hd wces")
    case True
    with il st(1) have "cp_record s2 = Some r" by (auto simp: cpEmit_def)
    with r2 True show ?thesis by (simp add: resetCursor_def)
  next
    case False
    let ?a = "cursorNext ((cpEmit (InsertDocument (snd r)) ?s1)
                            \<lparr>cp_tmp := cp_tmp ?s1 @ [snd r]\<rparr>)"
    from il st(1) False nr have run: "insertLoop e n (tl wces) ?a = (ix, l, s2)"
      by (cases "insertDocumentStatus e (snd r)") auto
    have "fst q \<noteq> fst r" if q: "cp_record st' = Some q" for q
    proof -
      from q r2 run have "cp_record (snd (snd (insertLoop e n (tl wces) ?a))) = Some q" by simp
      from insertLoop_record [OF this] have "q \<in> set rest"
        using st(2) by (auto simp: cursorNext_def cpEmit_def split: list.splits)
      moreover have "distinct (map fst (pre @ r # rest))" using d unfolding s .
      ultimately show ?thesis by (auto simp: image_iff)
    qed
    then have "resetCursor recs (fst r) st' = seekExact recs (fst r) st'"
      by (cases "cp_record st'") (auto simp: resetCursor_def)
    with False show ?thesis by auto
  qed
qed

lemma retry_start:
  assumes d: "distinct (map fst recs)" and s: "recs = pre @ r # rest"
    and b: "0 < internalInsertMaxBatchSize e"
    and p: "positioned recs st"
    and c: "batchBody e recs (fst r) wces fps st = (WriteConflict, wces', fps', st')"
  shows "position (resetCursor recs (fst r) st') = (Some r, rest, cp_tmp st) \<and>
         (if wces \<noteq> [] \<and> hd wces
          then cp_record st' = Some r \<and>
               filter isSeekEvent
                 (batchEvents st' (snd (snd (snd (batchBody e recs (fst r) wces' fps' st'))))) = []
          else \<exists>evs. batchEvents st' (snd (snd (snd (batchBody e recs (fst r) wces' fps' st'))))
                       = SeekExact (fst r) # evs \<and> filter isSeekEvent evs = [])"
proof -
  have p': "positioned recs st'"
    using positioned_batchBody [OF p, of e "fst r" wces fps] c by simp
  have t: "cp_tmp st' = cp_tmp st" using batchBody_tmp [OF c] by simp
  have pos: "position (resetCursor recs (fst r) st') = (Some r, rest, cp_tmp st)"
    using resetCursor_position [OF d s p'] t by simp
  obtain ex2 w2 f2 st2 where
    r2: "batchBody e recs (fst r) wces' fps' st' = (ex2, w2, f2, st2)"
    by (cases "batchBody e recs (fst r) wces' fps' st'")
  from batchBody_trace [OF r2] obtain evs where
    e1: "list_all isInsertEvent evs"
    and t1: "cp_trace st2 = cp_trace (resetCursor recs (fst r) st') @ evs @
             (case ex2 of
                Committed \<Rightarrow> [CursorSave, WuowCommit, CursorRestore]
              | WriteConflict \<Rightarrow>
                  if f2 = fps' then [WuowAbort] else [CursorSave, CursorRestore, WuowAbort]
              | Failed c \<Rightarrow> [WuowAbort])"
    by blast
  let ?tail = "evs @ (case ex2 of
                Committed \<Rightarrow> [CursorSave, WuowCommit, CursorRestore]
              | WriteConflict \<Rightarrow>
                  if f2 = fps' then [WuowAbort] else [CursorSave, CursorRestore, WuowAbort]
              | Failed c \<Rightarrow> [WuowAbort])"
  have noseek: "filter isSeekEvent ?tail = []"
    using insert_events [OF e1] by (cases ex2) simp_all
  note cc = conflict_cursor [OF d s b p c]
  show ?thesis
  proof (cases "wces \<noteq> [] \<and> hd wces")
    case True
    with cc have "cp_record st' = Some r" and "resetCursor recs (fst r) st' = st'" by simp_all
    with t1 have "batchEvents st' st2 = ?tail" by (simp add: batchEvents_def)
    with noseek True pos r2 \<open>cp_record st' = Some r\<close> show ?thesis by simp
  next
    case False
    with cc have "resetCursor recs (fst r) st' = seekExact recs (fst r) st'" by simp
    with t1 have "batchEvents st' st2 = SeekExact (fst r) # ?tail"
      by (simp add: batchEvents_def seekExact_trace)
    with noseek False pos r2 show ?thesis by auto
  qed
qed

text \<open>
  C3, as the code has it. In the bulk copy of a cross-database rename, with record ids
  that are distinct and a batch size above zero:
  \<^item> when a write conflict ends a run of the body of the batch that began at the record
    \<open>r\<close>, the retried run starts on \<open>r\<close> with the rest of the source behind it and the
    staging collection as it was when the run began. If the conflict came from the first
    insert of the run the cursor still stands on \<open>r\<close> and the retried run seeks nothing;
    otherwise the retried run starts by seeking the cursor to the id of \<open>r\<close>, and seeks
    nothing else;
  \<^item> a run of the batch body that commits saves the cursor, commits and restores the
    cursor; a run that the fail point ends by a write conflict saves the cursor, restores
    it and aborts; a run that an insert ends (by a write conflict it raises, the fail
    point not having been asked, or by the status it returns) aborts and neither saves nor
    restores the cursor;
  \<^item> the status and the documents of the staging collection at the end of the loop are
    those of the loop run with no write conflict, whatever conflicts the inserts and the
    fail point raise;
  \<^item> if no interrupt is pending the loop returns.
\<close>

theorem copyLoop_write_conflict_retry:
  assumes d: "distinct (map fst recs)" and b: "0 < internalInsertMaxBatchSize e"
  shows "(\<forall>pre r rest st ws fs ws' fs' st'.
            recs = pre @ r # rest \<and> positioned recs st \<and>
            batchBody e recs (fst r) ws fs st = (WriteConflict, ws', fs', st') \<longrightarrow>
              position (resetCursor recs (fst r) st') = (Some r, rest, cp_tmp st) \<and>
              (if ws \<noteq> [] \<and> hd ws
               then cp_record st' = Some r \<and>
                    filter isSeekEvent
                      (batchEvents st'
                         (snd (snd (snd (batchBody e recs (fst r) ws' fs' st'))))) = []
               else \<exists>evs. batchEvents st'
                              (snd (snd (snd (batchBody e recs (fst r) ws' fs' st'))))
                            = SeekExact (fst r) # evs \<and> filter isSeekEvent evs = [])) \<and>
         (\<forall>i ws fs st ex ws' fs' st'.
            batchBody e recs i ws fs st = (ex, ws', fs', st') \<longrightarrow>
              filter isUnitEvent (batchEvents st st') =
                (case ex of
                   Committed \<Rightarrow> [CursorSave, WuowCommit, CursorRestore]
                 | WriteConflict \<Rightarrow>
                     if fs' = fs then [WuowAbort] else [CursorSave, CursorRestore, WuowAbort]
                 | Failed c \<Rightarrow> [WuowAbort])) \<and>
         copied (copyLoop e recs wces fps (copyStart recs docs)) =
           copied (copyLoop e recs [] [] (copyStart recs docs)) \<and>
         (\<not> killPending e \<longrightarrow>
            (\<exists>s ds. copied (copyLoop e recs wces fps (copyStart recs docs)) = Returns (s, ds)))"
proof -
  have A: "position (resetCursor recs (fst r) st') = (Some r, rest, cp_tmp st) \<and>
              (if ws \<noteq> [] \<and> hd ws
               then cp_record st' = Some r \<and>
                    filter isSeekEvent
                      (batchEvents st'
                         (snd (snd (snd (batchBody e recs (fst r) ws' fs' st'))))) = []
               else \<exists>evs. batchEvents st'
                              (snd (snd (snd (batchBody e recs (fst r) ws' fs' st'))))
                            = SeekExact (fst r) # evs \<and> filter isSeekEvent evs = [])"
    if "recs = pre @ r # rest \<and> positioned recs st \<and>
        batchBody e recs (fst r) ws fs st = (WriteConflict, ws', fs', st')"
    for pre r rest st ws fs ws' fs' st'
    using that retry_start [OF d _ b, of pre r rest st ws fs ws' fs' st'] by blast
  have B: "filter isUnitEvent (batchEvents st st') =
                (case ex of
                   Committed \<Rightarrow> [CursorSave, WuowCommit, CursorRestore]
                 | WriteConflict \<Rightarrow>
                     if fs' = fs then [WuowAbort] else [CursorSave, CursorRestore, WuowAbort]
                 | Failed c \<Rightarrow> [WuowAbort])"
    if "batchBody e recs i ws fs st = (ex, ws', fs', st')" for i ws fs st ex ws' fs' st'
    using that by (rule batchBody_unit_events)
  have C: "copied (copyLoop e recs wces fps (copyStart recs docs)) =
           copied (copyLoop e recs [] [] (copyStart recs docs))"
    by (rule copyLoop_position [OF d positioned_copyStart refl])
  have R: "\<exists>s ds. copied (copyLoop e recs wces fps (copyStart recs docs)) = Returns (s, ds)"
    if "\<not> killPending e"
    using copyLoop_returns [OF b that, of recs wces fps "copyStart recs docs"]
    by (auto simp: copied_def)
  from A B C R show ?thesis by blast
qed

theorem copyLoop_write_conflict_retry_witness:
  "distinct (map fst (c_records sampleX)) \<and> 0 < internalInsertMaxBatchSize sampleEnv \<and>
   \<not> killPending sampleEnv \<and> positioned (c_records sampleX) (copyStart (c_records sampleX) []) \<and>
   fst (batchBody sampleEnv (c_records sampleX) 1 [False, True] [True]
          (copyStart (c_records sampleX) [])) = WriteConflict \<and>
   position (resetCursor (c_records sampleX) 1
      (snd (snd (snd (batchBody sampleEnv (c_records sampleX) 1 [False, True] [True]
                        (copyStart (c_records sampleX) []))))))
     = (Some (1, ''a''), [(2, ''b''), (3, ''c'')], []) \<and>
   filter isUnitEvent (batchEvents (copyStart (c_records sampleX) [])
      (snd (snd (snd (batchBody sampleEnv (c_records sampleX) 1 [False, True] [True]
                        (copyStart (c_records sampleX) []))))))
     = [WuowAbort] \<and>
   copied (copyLoop sampleEnv (c_records sampleX) [False, True] [True]
             (copyStart (c_records sampleX) []))
     = Returns (OK, [''a'', ''b'', ''c''])"
proof -
  let ?recs = "c_records sampleX"
  let ?r = "(1::nat, ''a'')"
  let ?st = "copyStart ?recs []"
  let ?X = "batchBody sampleEnv ?recs 1 [False, True] [True] ?st"
  have d: "distinct (map fst ?recs)" by (simp add: sampleX_def)
  have b: "0 < internalInsertMaxBatchSize sampleEnv" by (simp add: sampleEnv_def)
  have k: "\<not> killPending sampleEnv" by (simp add: sampleEnv_def)
  have recs: "?recs = [] @ ?r # [(2, ''b''), (3, ''c'')]" by (simp add: sampleX_def)
  have st: "cp_record ?st = Some ?r" "cp_cursor ?st = [(2, ''b''), (3, ''c'')]" "cp_tmp ?st = []"
    by (simp_all add: copyStart_def cursorNext_def cpEmit_def sampleX_def)
  have f: "fst ?X = WriteConflict" "fst (snd (snd ?X)) = [True]" by code_simp+
  have c: "batchBody sampleEnv ?recs (fst ?r) [False, True] [True] ?st =
           (WriteConflict, fst (snd ?X), [True], snd (snd (snd ?X)))"
    using f by (simp add: prod_eq_iff)
  have nc: "copied (copyLoop sampleEnv ?recs [] [] ?st) = Returns (OK, [''a'', ''b'', ''c''])"
    by code_simp
  note T = copyLoop_write_conflict_retry [OF d b, where wces = "[False, True]"
             and fps = "[True]" and docs = "[]"]
  from T recs positioned_copyStart [of ?recs "[]"] c
  have "position (resetCursor ?recs (fst ?r) (snd (snd (snd ?X))))
        = (Some ?r, [(2, ''b''), (3, ''c'')], cp_tmp ?st)"
    by blast
  moreover from T c
  have "filter isUnitEvent (batchEvents ?st (snd (snd (snd ?X)))) =
          (case WriteConflict of
             Committed \<Rightarrow> [CursorSave, WuowCommit, CursorRestore]
           | WriteConflict \<Rightarrow>
               if [True] = [True] then [WuowAbort] else [CursorSave, CursorRestore, WuowAbort]
           | Failed c \<Rightarrow> [WuowAbort])"
    by blast
  moreover from T nc
  have "copied (copyLoop sampleEnv ?recs [False, True] [True] ?st) =
        Returns (OK, [''a'', ''b'', ''c''])"
    by simp
  ultimately show ?thesis
    using d b k f st(3) positioned_copyStart [of ?recs "[]"] by simp
qed

text \<open>
  The claim C3 as it is stated fails when the first insert of a batch raises the write
  conflict. At the sample node, with batches of two documents, the insert of the document
  \<open>a\<close> raises a WriteConflictException: the exception leaves the batch body from line 678,
  before the cursor is saved and before the restore guard of lines 691-694 exists, so the
  run ends by the abort of its write unit with no restore of the cursor; and since
  \<open>record\<close> is still the record 1 that began the batch, the condition of line 672 is
  false and the retried run copies \<open>a\<close> and \<open>b\<close> without any seekExact. The copy is
  complete all the same.
\<close>

theorem copyLoop_write_conflict_retry_counterexample:
  "batchBody sampleEnv (c_records sampleX) 1 [True] [] (copyStart (c_records sampleX) []) =
     (WriteConflict, [], [],
      \<lparr>cp_record = Some (1, ''a''), cp_cursor = [(2, ''b''), (3, ''c'')], cp_tmp = [],
       cp_trace = [CursorNext, InsertDocument ''a'', WuowAbort]\<rparr>) \<and>
   copyLoop sampleEnv (c_records sampleX) [True] [] (copyStart (c_records sampleX) []) =
     Returns (OK, [], [],
       \<lparr>cp_record = None, cp_cursor = [], cp_tmp = [''a'', ''b'', ''c''],
        cp_trace = [CursorNext,
                    CheckForInterrupt,
                    InsertDocument ''a'', WuowAbort,
                    InsertDocument ''a'', CursorNext, InsertDocument ''b'', CursorNext,
                    CursorSave, WuowCommit, CursorRestore,
                    CheckForInterrupt,
                    InsertDocument ''c'', CursorNext,
                    CursorSave, WuowCommit, CursorRestore]\<rparr>)"
proof -
  have a: "batchBody sampleEnv (c_records sampleX) 1 [True] []
             (copyStart (c_records sampleX) []) =
     (WriteConflict, [], [],
      \<lparr>cp_record = Some (1, ''a''), cp_cursor = [(2, ''b''), (3, ''c'')], cp_tmp = [],
       cp_trace = [CursorNext, InsertDocument ''a'', WuowAbort]\<rparr>)"
    by code_simp
  have b: "copyLoop sampleEnv (c_records sampleX) [True] [] (copyStart (c_records sampleX) []) =
     Returns (OK, [], [],
       \<lparr>cp_record = None, cp_cursor = [], cp_tmp = [''a'', ''b'', ''c''],
        cp_trace = [CursorNext,
                    CheckForInterrupt,
                    InsertDocument ''a'', WuowAbort,
                    InsertDocument ''a'', CursorNext, InsertDocument ''b'', CursorNext,
                    CursorSave, WuowCommit, CursorRestore,
                    CheckForInterrupt,
                    InsertDocument ''c'', CursorNext,
                    CursorSave, WuowCommit, CursorRestore]\<rparr>)"
    by code_simp
  show ?thesis unfolding a b by simp
qed

subsection \<open>The index descriptors of the staging collection\<close>






































end
